theory Spec2Isabelle
  imports Complex_Main "HOL-Library.List_Lexorder" "HOL-Library.Product_Lexorder"
begin

section \<open>Building permits dashboard (streamlit\_app.py)\<close>

text \<open>
  The script reads three tables, joins them, derives \<open>Year\<close> and \<open>ZipCode\<close>, filters by
  zip code and by a selected year, and computes three group-and-count tables and four
  keyword counts. The tables are modelled as lists of records (one record per row, in
  row order), as \<open>read_csv\<close> returns them: a cell holds a string, a number, a boolean or
  is missing, and a column has the dtype of its cells. The functions below follow the
  script line by line; the pandas and Python primitives it calls are modelled by the
  executable functions of the first subsections.
\<close>

subsection \<open>Python strings and table cells\<close>

text \<open>
  A Python \<open>str\<close> is a sequence of Unicode code points; it is modelled as the list of
  its code points. \<open>ascii\<close> gives the code points of an ASCII literal.
\<close>

type_synonym pystr = "nat list"

definition ascii :: "string \<Rightarrow> pystr" where
  "ascii s = map of_char s"

text \<open>
  A cell of a table read by \<open>read_csv\<close>: a string, an integer, a float, a boolean, or
  missing (\<open>NaN\<close>). A float is given by the text \<open>str\<close> prints for it and by its exact
  value (finite floats only); \<open>read_csv\<close> holds the numbers of a column with a missing
  cell or a fraction as floats, so such a column has no \<open>IntVal\<close>. The two label
  columns \<open>FinalStatus\<close> and \<open>SimpleType\<close> hold text or are missing: there a cell is a
  \<open>pystr option\<close>, with \<open>None\<close> for \<open>NaN\<close>.
\<close>

datatype scalar = Str pystr | IntVal int | FloatVal pystr rat | BoolVal bool | NaN

type_synonym cell = "pystr option"

text \<open>\<open>str(i)\<close> for an integer: its decimal digits, after a minus sign when negative.\<close>

fun digits :: "nat \<Rightarrow> pystr" where
  "digits n = (if n < 10 then [48 + n] else digits (n div 10) @ [48 + n mod 10])"

declare digits.simps [simp del]

definition str_of_int :: "int \<Rightarrow> pystr" where
  "str_of_int i = (if i < 0 then 45 # digits (nat (- i)) else digits (nat i))"

text \<open>
  \<open>Series.astype(str)\<close> applies \<open>str\<close> to every cell: a string stays, a missing value
  becomes the text \<open>nan\<close>, a number its printed text, a boolean \<open>True\<close> or \<open>False\<close>.
\<close>

definition astype_str :: "scalar \<Rightarrow> pystr" where
  "astype_str c = (case c of
       Str s \<Rightarrow> s
     | IntVal i \<Rightarrow> str_of_int i
     | FloatVal text v \<Rightarrow> text
     | BoolVal b \<Rightarrow> (if b then ascii ''True'' else ascii ''False'')
     | NaN \<Rightarrow> ascii ''nan'')"

text \<open>\<open>Series.str[-5:]\<close>: the last five code points (the whole string when shorter).\<close>

definition str_last5 :: "pystr \<Rightarrow> pystr" where
  "str_last5 s = drop (length s - 5) s"

subsection \<open>Decimal digits: the class \<open>\d\<close> of Python's \<open>re\<close> on \<open>str\<close> patterns\<close>

text \<open>
  On a \<open>str\<close> pattern \<open>\d\<close> matches every code point of Unicode category Nd, not only
  \<open>0\<close> to \<open>9\<close>. The decimal digits come in runs of ten consecutive code points with
  values 0 to 9; \<open>nd_zeros\<close> lists the first code point of every run (Unicode 14, the
  table of \<open>str.isdecimal\<close>).
\<close>

definition nd_zeros :: "nat list" where
  "nd_zeros = [48, 1632, 1776, 1984, 2406, 2534, 2662, 2790, 2918, 3046, 3174, 3302,
     3430, 3558, 3664, 3792, 3872, 4160, 4240, 6112, 6160, 6470, 6608, 6784, 6800, 6992,
     7088, 7232, 7248, 42528, 43216, 43264, 43472, 43504, 43600, 44016, 65296, 66720,
     68912, 69734, 69872, 69942, 70096, 70384, 70736, 70864, 71248, 71360, 71472, 71904,
     72016, 72784, 73040, 73120, 92768, 92864, 93008, 120782, 120792, 120802, 120812,
     120822, 123200, 123632, 125264, 130032]"

definition isdecimal :: "nat \<Rightarrow> bool" where
  "isdecimal c = list_ex (\<lambda>z. z \<le> c \<and> c < z + 10) nd_zeros"

definition ascii_digit :: "nat \<Rightarrow> bool" where
  "ascii_digit c = (48 \<le> c \<and> c \<le> 57)"

text \<open>The value of a decimal digit, and \<open>int(s)\<close> on a string of decimal digits.\<close>

definition digit_value :: "nat \<Rightarrow> nat" where
  "digit_value c = (case filter (\<lambda>z. z \<le> c \<and> c < z + 10) nd_zeros of
                      [] \<Rightarrow> 0 | z # _ \<Rightarrow> c - z)"

definition int_of_digits :: "pystr \<Rightarrow> nat" where
  "int_of_digits s = foldl (\<lambda>n c. 10 * n + digit_value c) 0 s"

text \<open>
  \<open>Series.str.match(r"^\d{5}$")\<close> is \<open>re.match\<close>: five decimal digits from the start,
  then the end of the string; \<open>$\<close> also matches just before a final newline.
\<close>

definition str_match_zip :: "pystr \<Rightarrow> bool" where
  "str_match_zip s =
     ((length s = 5 \<and> list_all isdecimal s) \<or>
      (length s = 6 \<and> list_all isdecimal (take 5 s) \<and> s ! 5 = 10))"

subsection \<open>Dates: \<open>to_datetime\<close> with format \<open>%m/%d/%Y\<close>\<close>

datatype timestamp = Timestamp (ts_year: nat) (ts_month: nat) (ts_day: nat)

datatype py_error = ValueError | NameError | KeyError | TypeError | RequestException

datatype errors_mode = Raise | Coerce

text \<open>Splitting at the separator \<open>/\<close> (code point 47).\<close>

fun split_slash :: "pystr \<Rightarrow> pystr list" where
  "split_slash [] = [[]]"
| "split_slash (c # cs) =
     (if c = 47 then [] # split_slash cs
      else (case split_slash cs of p # ps \<Rightarrow> (c # p) # ps | [] \<Rightarrow> [[c]]))"

text \<open>
  The directives of the format, as the regular expressions of \<open>strptime\<close>:
  \<open>%m\<close> is \<open>1[0-2]|0[1-9]|[1-9]\<close>, \<open>%d\<close> is \<open>3[0-1]|[1-2]\d|0[1-9]|[1-9]| [1-9]\<close> and
  \<open>%Y\<close> is \<open>\d\d\d\d\<close>. Each returns the number read, or \<open>None\<close> when the text does
  not match.
\<close>

definition parse_m :: "pystr \<Rightarrow> nat option" where
  "parse_m s = (case s of
       [a, b] \<Rightarrow> if a = 49 \<and> 48 \<le> b \<and> b \<le> 50 then Some (10 + (b - 48))
                 else if a = 48 \<and> 49 \<le> b \<and> b \<le> 57 then Some (b - 48) else None
     | [a] \<Rightarrow> if 49 \<le> a \<and> a \<le> 57 then Some (a - 48) else None
     | _ \<Rightarrow> None)"

definition parse_d :: "pystr \<Rightarrow> nat option" where
  "parse_d s = (case s of
       [a, b] \<Rightarrow> if a = 51 \<and> 48 \<le> b \<and> b \<le> 49 then Some (30 + (b - 48))
                 else if 49 \<le> a \<and> a \<le> 50 \<and> isdecimal b
                   then Some (10 * (a - 48) + digit_value b)
                 else if a = 48 \<and> 49 \<le> b \<and> b \<le> 57 then Some (b - 48)
                 else if a = 32 \<and> 49 \<le> b \<and> b \<le> 57 then Some (b - 48) else None
     | [a] \<Rightarrow> if 49 \<le> a \<and> a \<le> 57 then Some (a - 48) else None
     | _ \<Rightarrow> None)"

definition parse_Y :: "pystr \<Rightarrow> nat option" where
  "parse_Y s = (if length s = 4 \<and> list_all isdecimal s then Some (int_of_digits s) else None)"

definition is_leap :: "nat \<Rightarrow> bool" where
  "is_leap y = (y mod 4 = 0 \<and> (y mod 100 \<noteq> 0 \<or> y mod 400 = 0))"

definition days_in_month :: "nat \<Rightarrow> nat \<Rightarrow> nat" where
  "days_in_month y m =
     (if m = 2 then (if is_leap y then 29 else 28)
      else if m = 4 \<or> m = 6 \<or> m = 9 \<or> m = 11 then 30 else 31)"

text \<open>
  A date must exist in the calendar (year at least 1, day within the month) and lie in
  the range of a nanosecond timestamp: at midnight, from 1677-09-22 to 2262-04-11.
\<close>

definition in_ns_bounds :: "nat \<Rightarrow> nat \<Rightarrow> nat \<Rightarrow> bool" where
  "in_ns_bounds y m d =
     ((1677 < y \<or> (y = 1677 \<and> (9 < m \<or> (m = 9 \<and> 22 \<le> d)))) \<and>
      (y < 2262 \<or> (y = 2262 \<and> (m < 4 \<or> (m = 4 \<and> d \<le> 11)))))"

definition strptime :: "pystr \<Rightarrow> timestamp option" where
  "strptime s = (case split_slash s of
       [ms, ds, ys] \<Rightarrow>
         (case (parse_m ms, parse_d ds, parse_Y ys) of
            (Some m, Some d, Some y) \<Rightarrow>
              if 1 \<le> y \<and> d \<le> days_in_month y m \<and> in_ns_bounds y m d
              then Some (Timestamp y m d) else None
          | _ \<Rightarrow> None)
     | _ \<Rightarrow> None)"

text \<open>
  \<open>to_datetime\<close> on a column. A missing cell, an empty text and the spellings of
  \<open>NaT\<close> and \<open>nan\<close> are \<open>NaT\<close> (\<open>None\<close>). A number or a boolean is read through its
  printed text. The exact texts \<open>now\<close> and \<open>today\<close> are not matched against the format:
  they give the timestamp of the moment of the call, which is the parameter \<open>clock\<close>.
  Any other text that does not parse raises with \<open>errors="raise"\<close> and is \<open>NaT\<close> with
  \<open>errors="coerce"\<close>.
\<close>

record clock =
  clock_now :: timestamp
  clock_today :: timestamp

definition nat_strings :: "pystr list" where
  "nat_strings = map ascii [''NaT'', ''nat'', ''NAT'', ''nan'', ''NaN'', ''NAN'']"

definition parse_text :: "errors_mode \<Rightarrow> clock \<Rightarrow> pystr \<Rightarrow> py_error + timestamp option" where
  "parse_text mode clk s =
     (if s = ascii ''now'' then Inr (Some (clock_now clk))
      else if s = ascii ''today'' then Inr (Some (clock_today clk))
      else (case strptime s of
              Some t \<Rightarrow> Inr (Some t)
            | None \<Rightarrow> (case mode of Coerce \<Rightarrow> Inr None | Raise \<Rightarrow> Inl ValueError)))"

definition to_datetime1 :: "errors_mode \<Rightarrow> clock \<Rightarrow> scalar \<Rightarrow> py_error + timestamp option" where
  "to_datetime1 mode clk c = (case c of
       NaN \<Rightarrow> Inr None
     | Str s \<Rightarrow> if s = [] \<or> s \<in> set nat_strings then Inr None else parse_text mode clk s
     | IntVal i \<Rightarrow> if i = - (2 ^ 63) then Inr None else parse_text mode clk (astype_str c)
     | _ \<Rightarrow> parse_text mode clk (astype_str c))"

fun to_datetime ::
  "errors_mode \<Rightarrow> clock \<Rightarrow> scalar list \<Rightarrow> py_error + timestamp option list" where
  "to_datetime mode clk [] = Inr []"
| "to_datetime mode clk (c # cs) =
     (case to_datetime1 mode clk c of
        Inl e \<Rightarrow> Inl e
      | Inr t \<Rightarrow> (case to_datetime mode clk cs of Inl e \<Rightarrow> Inl e | Inr ts \<Rightarrow> Inr (t # ts)))"

text \<open>\<open>Series.dt.year\<close>: the year of a timestamp, missing for \<open>NaT\<close>.\<close>

definition dt_year :: "timestamp option \<Rightarrow> int option" where
  "dt_year t = map_option (\<lambda>t. int (ts_year t)) t"

subsection \<open>The tables\<close>

text \<open>
  The permits table with the five columns the script reads; the type of the
  \<open>RECORD STATUS DATE\<close> column is a parameter, since line 40 replaces its cells by
  timestamps. The two lookup tables have the columns \<open>Status, FinalStatus\<close> and
  \<open>RECORD TYPE, SimpleType\<close>.
\<close>

record 'd permit =
  RECORD_STATUS :: scalar
  RECORD_STATUS_DATE :: 'd
  RECORD_TYPE :: scalar
  ADDR_FULL_LINE :: scalar
  DESCRIPTION :: scalar

record status_row =
  lk_Status :: scalar
  lk_FinalStatus :: cell

record type_row =
  lk_RECORD_TYPE :: scalar
  lk_SimpleType :: cell

record 'd with_status = "'d permit" +
  Status :: scalar
  FinalStatus :: cell

record 'd with_type = "'d with_status" +
  SimpleType :: cell

record prepared = "timestamp option with_type" +
  Year :: "int option"
  ZipCode :: pystr

subsection \<open>Column dtypes and join keys\<close>

text \<open>
  The dtype of a column, from its cells: \<open>object\<close> for a table without rows; \<open>int64\<close>
  when every cell is an integer; \<open>float64\<close> when every cell is a number or missing (so
  also when every cell is missing); \<open>bool\<close> when every cell is a boolean; \<open>object\<close>
  otherwise (strings, with or without missing cells).
\<close>

datatype dtype = ObjectD | Int64D | Float64D | BoolD

definition is_int :: "scalar \<Rightarrow> bool" where
  "is_int v = (case v of IntVal i \<Rightarrow> True | _ \<Rightarrow> False)"

definition is_number_or_nan :: "scalar \<Rightarrow> bool" where
  "is_number_or_nan v = (case v of IntVal i \<Rightarrow> True | FloatVal t x \<Rightarrow> True | NaN \<Rightarrow> True | _ \<Rightarrow> False)"

definition is_bool :: "scalar \<Rightarrow> bool" where
  "is_bool v = (case v of BoolVal b \<Rightarrow> True | _ \<Rightarrow> False)"

definition dtype_of :: "scalar list \<Rightarrow> dtype" where
  "dtype_of vs =
     (if vs = [] then ObjectD
      else if list_all is_int vs then Int64D
      else if list_all is_number_or_nan vs then Float64D
      else if list_all is_bool vs then BoolD
      else ObjectD)"

text \<open>
  \<open>merge\<close> checks the dtypes of the two key columns before it joins, and raises
  \<open>ValueError\<close> when one is \<open>object\<close> and the other \<open>int64\<close> or \<open>float64\<close>, unless the
  object column holds an integer among its cells. There is no check when exactly one
  of the two tables has no row.
\<close>

definition keys_compatible :: "scalar list \<Rightarrow> scalar list \<Rightarrow> bool" where
  "keys_compatible lk rk =
     (if (lk \<noteq> [] \<and> rk = []) \<or> (lk = [] \<and> rk \<noteq> []) then True
      else (case (dtype_of lk, dtype_of rk) of
              (ObjectD, Int64D) \<Rightarrow> list_ex is_int lk
            | (ObjectD, Float64D) \<Rightarrow> list_ex is_int lk
            | (Int64D, ObjectD) \<Rightarrow> list_ex is_int rk
            | (Float64D, ObjectD) \<Rightarrow> list_ex is_int rk
            | _ \<Rightarrow> True))"

text \<open>
  Equality of two keys. Strings are equal when they are the same text, numbers and
  booleans when they have the same value (\<open>True\<close> is 1), a missing key equals a missing
  key, and nothing else is equal.
\<close>

definition num_of :: "scalar \<Rightarrow> rat option" where
  "num_of v = (case v of
       IntVal i \<Rightarrow> Some (of_int i)
     | FloatVal t x \<Rightarrow> Some x
     | BoolVal b \<Rightarrow> Some (if b then 1 else 0)
     | _ \<Rightarrow> None)"

definition py_eq :: "scalar \<Rightarrow> scalar \<Rightarrow> bool" where
  "py_eq a b = (case (a, b) of
       (Str s, Str t) \<Rightarrow> s = t
     | (NaN, NaN) \<Rightarrow> True
     | _ \<Rightarrow> (case (num_of a, num_of b) of (Some x, Some y) \<Rightarrow> x = y | _ \<Rightarrow> False))"

text \<open>
  When one key column is \<open>int64\<close> and the other \<open>float64\<close>, the integers are first
  converted to \<open>float64\<close>: \<open>float_of_int\<close> is the nearest float, with 53 significant
  bits and ties to the even one.
\<close>

fun bit_length :: "nat \<Rightarrow> nat" where
  "bit_length n = (if n = 0 then 0 else Suc (bit_length (n div 2)))"

declare bit_length.simps [simp del]

definition float_of_int :: "int \<Rightarrow> rat" where
  "float_of_int i =
     (let a = nat \<bar>i\<bar>; n = bit_length a
      in if n \<le> 53 then of_int i
         else (let e = n - 53; m = a div 2 ^ e; r = a mod 2 ^ e;
                   m' = (if 2 ^ e < 2 * r \<or> (2 * r = 2 ^ e \<and> odd m) then m + 1 else m)
               in of_int (sgn i * int (m' * 2 ^ e))))"

definition as_float64 :: "scalar \<Rightarrow> scalar" where
  "as_float64 v = (case v of IntVal i \<Rightarrow> FloatVal [] (float_of_int i) | _ \<Rightarrow> v)"

definition key_match :: "dtype \<Rightarrow> dtype \<Rightarrow> scalar \<Rightarrow> scalar \<Rightarrow> bool" where
  "key_match dl dr a b =
     (if (dl = Int64D \<and> dr = Float64D) \<or> (dl = Float64D \<and> dr = Int64D)
      then py_eq (as_float64 a) (as_float64 b)
      else py_eq a b)"

subsection \<open>Lines 36 and 37: the two left joins\<close>

text \<open>
  \<open>merge(..., how="left")\<close> raises when the key columns are not compatible. Otherwise
  it keeps the rows of the left table in their order. A left row gives one output row
  per right row with an equal key, in the order of the right table, and one output row
  with missing right columns when no right row has its key.
\<close>

definition join_status :: "'d permit \<Rightarrow> scalar \<Rightarrow> cell \<Rightarrow> 'd with_status" where
  "join_status p s f =
     \<lparr>RECORD_STATUS = RECORD_STATUS p, RECORD_STATUS_DATE = RECORD_STATUS_DATE p,
      RECORD_TYPE = RECORD_TYPE p, ADDR_FULL_LINE = ADDR_FULL_LINE p,
      DESCRIPTION = DESCRIPTION p, Status = s, FinalStatus = f\<rparr>"

text \<open>Whether the permit \<open>p\<close> and the lookup row \<open>s\<close> have equal keys, in these tables.\<close>

definition status_match :: "'d permit list \<Rightarrow> status_row list \<Rightarrow> 'd permit \<Rightarrow> status_row \<Rightarrow> bool" where
  "status_match records status p s =
     key_match (dtype_of (map RECORD_STATUS records)) (dtype_of (map lk_Status status))
       (RECORD_STATUS p) (lk_Status s)"

definition merge_status ::
  "'d permit list \<Rightarrow> status_row list \<Rightarrow> py_error + 'd with_status list" where
  "merge_status records status =
     (if \<not> keys_compatible (map RECORD_STATUS records) (map lk_Status status)
      then Inl ValueError
      else Inr (concat (map (\<lambda>p.
        (case filter (status_match records status p) status of
           [] \<Rightarrow> [join_status p NaN None]
         | ms \<Rightarrow> map (\<lambda>s. join_status p (lk_Status s) (lk_FinalStatus s)) ms)) records)))"

definition join_type :: "'d with_status \<Rightarrow> cell \<Rightarrow> 'd with_type" where
  "join_type r t =
     \<lparr>RECORD_STATUS = RECORD_STATUS r, RECORD_STATUS_DATE = RECORD_STATUS_DATE r,
      RECORD_TYPE = RECORD_TYPE r, ADDR_FULL_LINE = ADDR_FULL_LINE r,
      DESCRIPTION = DESCRIPTION r, Status = Status r, FinalStatus = FinalStatus r,
      SimpleType = t\<rparr>"

definition type_match :: "'d with_status list \<Rightarrow> type_row list \<Rightarrow> 'd with_status \<Rightarrow> type_row \<Rightarrow> bool" where
  "type_match df types r t =
     key_match (dtype_of (map RECORD_TYPE df)) (dtype_of (map lk_RECORD_TYPE types))
       (RECORD_TYPE r) (lk_RECORD_TYPE t)"

definition merge_types ::
  "'d with_status list \<Rightarrow> type_row list \<Rightarrow> py_error + 'd with_type list" where
  "merge_types df types =
     (if \<not> keys_compatible (map RECORD_TYPE df) (map lk_RECORD_TYPE types)
      then Inl ValueError
      else Inr (concat (map (\<lambda>r.
        (case filter (type_match df types r) types of
           [] \<Rightarrow> [join_type r None]
         | ms \<Rightarrow> map (\<lambda>t. join_type r (lk_SimpleType t)) ms)) df)))"

text \<open>The joined table of lines 36 and 37, or the error of the first join that raises.\<close>

definition joined ::
  "'d permit list \<Rightarrow> status_row list \<Rightarrow> type_row list \<Rightarrow> py_error + 'd with_type list" where
  "joined records status types =
     (case merge_status records status of
        Inl e \<Rightarrow> Inl e
      | Inr df \<Rightarrow> merge_types df types)"

text \<open>The permit a joined row comes from: its five columns of the permits table.\<close>

definition permit_of :: "('d, 'z) permit_scheme \<Rightarrow> 'd permit" where
  "permit_of r =
     \<lparr>RECORD_STATUS = RECORD_STATUS r, RECORD_STATUS_DATE = RECORD_STATUS_DATE r,
      RECORD_TYPE = RECORD_TYPE r, ADDR_FULL_LINE = ADDR_FULL_LINE r,
      DESCRIPTION = DESCRIPTION r\<rparr>"

subsection \<open>Lines 40 to 47: Year, ZipCode and the zip filter\<close>

text \<open>
  Lines 40, 41 and 44 set three columns of a row: the parsed date \<open>t\<close>, its year, and
  the last five characters of the address as text.
\<close>

definition derive_columns :: "scalar with_type \<Rightarrow> timestamp option \<Rightarrow> prepared" where
  "derive_columns r t =
     \<lparr>RECORD_STATUS = RECORD_STATUS r, RECORD_STATUS_DATE = t,
      RECORD_TYPE = RECORD_TYPE r, ADDR_FULL_LINE = ADDR_FULL_LINE r,
      DESCRIPTION = DESCRIPTION r, Status = Status r, FinalStatus = FinalStatus r,
      SimpleType = SimpleType r,
      Year = dt_year t,
      ZipCode = str_last5 (astype_str (ADDR_FULL_LINE r))\<rparr>"

text \<open>Line 45: the mask \<open>str.match(r"^\d{5}$") & (ZipCode != "00000")\<close>.\<close>

definition zip_ok :: "pystr \<Rightarrow> bool" where
  "zip_ok z = (str_match_zip z \<and> z \<noteq> ascii ''00000'')"

text \<open>
  The function, on the three tables as read and at the moment \<open>clk\<close>. An exception of a
  join or of the date conversion ends it.
\<close>

definition load_and_prepare_data ::
  "clock \<Rightarrow> scalar permit list \<Rightarrow> status_row list \<Rightarrow> type_row list \<Rightarrow>
   py_error + prepared list" where
  "load_and_prepare_data clk records status types =
     (case merge_status records status of
        Inl e \<Rightarrow> Inl e
      | Inr df \<Rightarrow>
          (case merge_types df types of
             Inl e \<Rightarrow> Inl e
           | Inr df \<Rightarrow>
               (case to_datetime Coerce clk (map RECORD_STATUS_DATE df) of
                  Inl e \<Rightarrow> Inl e
                | Inr ts \<Rightarrow>
                    Inr (filter (\<lambda>r. zip_ok (ZipCode r)) (map2 derive_columns df ts)))))"

subsection \<open>Lines 53 to 55: the year selector and the year filter\<close>

text \<open>\<open>Series.dropna()\<close> and \<open>Series.unique()\<close> (first occurrences, in order).\<close>

definition dropna :: "'a option list \<Rightarrow> 'a list" where
  "dropna xs = List.map_filter (\<lambda>x. x) xs"

fun unique :: "'a list \<Rightarrow> 'a list" where
  "unique [] = []"
| "unique (x # xs) = x # unique (filter (\<lambda>y. y \<noteq> x) xs)"

text \<open>
  Line 53. \<open>sorted(..., reverse=True)\<close> on integers is the ascending sort reversed.
\<close>

definition available_years :: "prepared list \<Rightarrow> int list" where
  "available_years df = rev (sort (filter (\<lambda>y. y \<noteq> 2042) (unique (dropna (map Year df)))))"

text \<open>
  Line 54. A streamlit \<open>selectbox\<close> shows the options in order; its initial value is the
  first option, and \<open>None\<close> when there is no option. Afterwards the user may select any
  option.
\<close>

definition selectbox_initial :: "'a list \<Rightarrow> 'a option" where
  "selectbox_initial options = (case options of [] \<Rightarrow> None | y # _ \<Rightarrow> Some y)"

text \<open>
  Line 55: \<open>df[df["Year"] == selected_year]\<close>. A missing year equals no value, and no
  year equals the selection \<open>None\<close>.
\<close>

definition year_filter :: "prepared list \<Rightarrow> int option \<Rightarrow> prepared list" where
  "year_filter df selected_year =
     filter (\<lambda>r. case (Year r, selected_year) of (Some y, Some s) \<Rightarrow> y = s | _ \<Rightarrow> False) df"

subsection \<open>Lines 105 to 151: the three group-and-count tables\<close>

text \<open>
  \<open>groupby(keys).size().reset_index(name="Count")\<close>: one row per distinct key among the
  rows, in ascending key order, with the number of rows of that key. With the default
  \<open>dropna=True\<close> a row with a missing value in a key column belongs to no group; \<open>key\<close>
  returns \<open>None\<close> for it.
\<close>

definition groupby_size :: "('r \<Rightarrow> 'k option) \<Rightarrow> 'r list \<Rightarrow> ('k :: linorder \<times> nat) list" where
  "groupby_size key rows =
     (let ks = List.map_filter key rows
      in map (\<lambda>k. (k, count_list ks k)) (sort (unique ks)))"

definition key_zip_status :: "prepared \<Rightarrow> (pystr \<times> pystr) option" where
  "key_zip_status r = (case FinalStatus r of None \<Rightarrow> None | Some f \<Rightarrow> Some (ZipCode r, f))"

definition key_zip :: "prepared \<Rightarrow> pystr option" where
  "key_zip r = Some (ZipCode r)"

definition key_type_status :: "prepared \<Rightarrow> (pystr \<times> pystr) option" where
  "key_type_status r = (case (SimpleType r, FinalStatus r) of
                          (Some t, Some f) \<Rightarrow> Some (t, f) | _ \<Rightarrow> None)"

definition combo_counts :: "prepared list \<Rightarrow> ((pystr \<times> pystr) \<times> nat) list" where
  "combo_counts df_filtered = groupby_size key_zip_status df_filtered"

definition zip_treemap_data :: "prepared list \<Rightarrow> (pystr \<times> nat) list" where
  "zip_treemap_data df_filtered = groupby_size key_zip df_filtered"

definition type_combo_counts :: "prepared list \<Rightarrow> ((pystr \<times> pystr) \<times> nat) list" where
  "type_combo_counts df_filtered = groupby_size key_type_status df_filtered"

text \<open>The sum of the \<open>Count\<close> column.\<close>

definition total_count :: "('k \<times> nat) list \<Rightarrow> nat" where
  "total_count t = sum_list (map snd t)"

subsection \<open>Lines 174 to 187: the keyword counts\<close>

text \<open>
  \<open>str.lower()\<close> maps every character by the Unicode lowercase mapping. On ASCII this
  adds 32 to the capitals \<open>A\<close> to \<open>Z\<close> and leaves every other character as it is. The
  mapping of a character outside ASCII is the interpreter's table, and it can give
  several characters or depend on the neighbours (the final sigma): it is the parameter
  \<open>lower_ucs4\<close>, called with the string and the position.
\<close>

definition ascii_lower :: "nat \<Rightarrow> nat" where
  "ascii_lower c = (if 65 \<le> c \<and> c \<le> 90 then c + 32 else c)"

definition str_lower :: "(pystr \<Rightarrow> nat \<Rightarrow> pystr) \<Rightarrow> pystr \<Rightarrow> pystr" where
  "str_lower lower_ucs4 s =
     concat (map (\<lambda>i. if s ! i < 128 then [ascii_lower (s ! i)] else lower_ucs4 s i)
                 [0..<length s])"

text \<open>
  \<open>Series.str.contains(pat)\<close> searches every string for the regular expression \<open>pat\<close>.
  A pattern without special characters matches exactly its own text, so the search
  succeeds when the text occurs at some position; the four keywords are such patterns.
\<close>

definition regex_special :: "nat \<Rightarrow> bool" where
  "regex_special c = (c \<in> set (ascii ''.^$*+?{}[]()|'') \<or> c = 92)"

fun startswith :: "pystr \<Rightarrow> pystr \<Rightarrow> bool" where
  "startswith s [] = True"
| "startswith [] (p # ps) = False"
| "startswith (c # cs) (p # ps) = (c = p \<and> startswith cs ps)"

fun str_contains :: "pystr \<Rightarrow> pystr \<Rightarrow> bool" where
  "str_contains [] pat = (pat = [])"
| "str_contains (c # cs) pat = (startswith (c # cs) pat \<or> str_contains cs pat)"

definition kpi_keywords :: "(pystr \<times> pystr) list" where
  "kpi_keywords =
     [(ascii ''Potential for Portable Toilet Sales'', ascii ''bathroom''),
      (ascii ''Potential for Dumpster Sales'', ascii ''demolition''),
      (ascii ''Potential for Commercial Flooring Sales'', ascii ''flooring''),
      (ascii ''Potential for Fencing Sales'', ascii ''fence'')]"

text \<open>Line 174: the column \<open>Description_lower\<close> of the rows of \<open>df_filtered\<close>.\<close>

definition description_lower :: "(pystr \<Rightarrow> nat \<Rightarrow> pystr) \<Rightarrow> prepared list \<Rightarrow> pystr list" where
  "description_lower lower_ucs4 rows =
     map (\<lambda>r. str_lower lower_ucs4 (astype_str (DESCRIPTION r))) rows"

text \<open>Line 186: \<open>str.contains(keyword).sum()\<close>, the number of strings with a match.\<close>

definition keyword_count :: "pystr list \<Rightarrow> pystr \<Rightarrow> nat" where
  "keyword_count col keyword = length (filter (\<lambda>d. str_contains d keyword) col)"

text \<open>Lines 185 to 187: one count per label, in the order of the dictionary.\<close>

definition kpi_counts :: "pystr list \<Rightarrow> (pystr \<times> nat) list" where
  "kpi_counts col = map (\<lambda>(label, keyword). (label, keyword_count col keyword)) kpi_keywords"

subsection \<open>The script and its DataFrame objects\<close>

text \<open>
  \<open>df\<close> and \<open>df_filtered\<close> are references to DataFrame objects. Line 55 indexes \<open>df\<close> with
  a boolean mask, which builds a new object holding copies of the selected rows; line
  174 assigns a column of the object \<open>df_filtered\<close> refers to. The objects live in a
  store, by identity; a frame is the rows of the prepared table and, once assigned, the
  column \<open>Description_lower\<close>.
\<close>

record frame =
  frame_rows :: "prepared list"
  Description_lower :: "pystr list option"

record app =
  objs :: "nat \<Rightarrow> frame option"
  fresh :: nat
  v_df :: nat
  v_available_years :: "int list option"
  v_selected_year :: "int option"
  v_df_filtered :: "nat option"
  v_combo_counts :: "((pystr \<times> pystr) \<times> nat) list option"
  v_zip_treemap_data :: "(pystr \<times> nat) list option"
  v_type_combo_counts :: "((pystr \<times> pystr) \<times> nat) list option"
  v_kpi :: "(pystr \<times> nat) list option"

text \<open>A new object in the store, and the object a variable refers to.\<close>

definition new_frame :: "frame \<Rightarrow> app \<Rightarrow> nat \<times> app" where
  "new_frame f s = (fresh s, s\<lparr>objs := (objs s)(fresh s \<mapsto> f), fresh := Suc (fresh s)\<rparr>)"

definition deref :: "app \<Rightarrow> nat option \<Rightarrow> py_error + frame" where
  "deref s v = (case v of
       None \<Rightarrow> Inl NameError
     | Some a \<Rightarrow> (case objs s a of None \<Rightarrow> Inl NameError | Some f \<Rightarrow> Inr f))"

text \<open>Line 49: \<open>df = load_and_prepare_data()\<close>, in an empty store.\<close>

definition line49 ::
  "clock \<Rightarrow> scalar permit list \<Rightarrow> status_row list \<Rightarrow> type_row list \<Rightarrow> py_error + app" where
  "line49 clk records status types =
     (case load_and_prepare_data clk records status types of
        Inl e \<Rightarrow> Inl e
      | Inr rows \<Rightarrow>
          Inr \<lparr>objs = (\<lambda>a. None)(0 \<mapsto> \<lparr>frame_rows = rows, Description_lower = None\<rparr>),
               fresh = 1, v_df = 0, v_available_years = None, v_selected_year = None,
               v_df_filtered = None, v_combo_counts = None, v_zip_treemap_data = None,
               v_type_combo_counts = None, v_kpi = None\<rparr>)"

text \<open>
  Lines 53 and 54: the options of the selector and the selected year; \<open>pick\<close> is the
  user's selection among the options (\<open>selectbox_initial\<close> when the page first loads).
\<close>

definition line53_54 :: "(int list \<Rightarrow> int option) \<Rightarrow> app \<Rightarrow> py_error + app" where
  "line53_54 pick s =
     (case deref s (Some (v_df s)) of
        Inl e \<Rightarrow> Inl e
      | Inr f \<Rightarrow>
          (let ys = available_years (frame_rows f)
           in Inr (s\<lparr>v_available_years := Some ys, v_selected_year := pick ys\<rparr>)))"

text \<open>Line 55: \<open>df_filtered = df[df["Year"] == selected_year]\<close>, a new object.\<close>

definition line55 :: "app \<Rightarrow> py_error + app" where
  "line55 s =
     (case deref s (Some (v_df s)) of
        Inl e \<Rightarrow> Inl e
      | Inr f \<Rightarrow>
          (let (a, s') = new_frame \<lparr>frame_rows = year_filter (frame_rows f) (v_selected_year s),
                                     Description_lower = None\<rparr> s
           in Inr (s'\<lparr>v_df_filtered := Some a\<rparr>)))"

text \<open>Lines 105 to 109, 131 to 135 and 147 to 151: the three aggregations.\<close>

definition lines105_109 :: "app \<Rightarrow> py_error + app" where
  "lines105_109 s =
     (case deref s (v_df_filtered s) of
        Inl e \<Rightarrow> Inl e
      | Inr f \<Rightarrow> Inr (s\<lparr>v_combo_counts := Some (combo_counts (frame_rows f))\<rparr>))"

definition lines131_135 :: "app \<Rightarrow> py_error + app" where
  "lines131_135 s =
     (case deref s (v_df_filtered s) of
        Inl e \<Rightarrow> Inl e
      | Inr f \<Rightarrow> Inr (s\<lparr>v_zip_treemap_data := Some (zip_treemap_data (frame_rows f))\<rparr>))"

definition lines147_151 :: "app \<Rightarrow> py_error + app" where
  "lines147_151 s =
     (case deref s (v_df_filtered s) of
        Inl e \<Rightarrow> Inl e
      | Inr f \<Rightarrow> Inr (s\<lparr>v_type_combo_counts := Some (type_combo_counts (frame_rows f))\<rparr>))"

text \<open>
  Line 174: \<open>df_filtered["Description_lower"] = ...\<close> writes the column into the object
  \<open>df_filtered\<close> refers to.
\<close>

definition line174 :: "(pystr \<Rightarrow> nat \<Rightarrow> pystr) \<Rightarrow> app \<Rightarrow> py_error + app" where
  "line174 lower_ucs4 s =
     (case v_df_filtered s of
        None \<Rightarrow> Inl NameError
      | Some a \<Rightarrow>
          (case objs s a of
             None \<Rightarrow> Inl NameError
           | Some f \<Rightarrow>
               Inr (s\<lparr>objs := (objs s)(a \<mapsto>
                 f\<lparr>Description_lower := Some (description_lower lower_ucs4 (frame_rows f))\<rparr>)\<rparr>)))"

text \<open>Lines 185 to 187 read the column \<open>Description_lower\<close> of \<open>df_filtered\<close>.\<close>

definition lines185_187 :: "app \<Rightarrow> py_error + app" where
  "lines185_187 s =
     (case deref s (v_df_filtered s) of
        Inl e \<Rightarrow> Inl e
      | Inr f \<Rightarrow>
          (case Description_lower f of
             None \<Rightarrow> Inl KeyError
           | Some col \<Rightarrow> Inr (s\<lparr>v_kpi := Some (kpi_counts col)\<rparr>)))"

text \<open>
  Line 91: \<open>weather = get_weather()\<close>, between the year filter and the aggregations. The
  call asks a remote service and computes on floating-point numbers, which are not
  modelled; it reads and writes no DataFrame. It can raise (no network, a response
  without the expected keys or without the hour asked for), and then the script stops:
  \<open>outcome\<close> is \<open>None\<close> when the call returns and the exception when it raises.
\<close>

definition line91 :: "py_error option \<Rightarrow> app \<Rightarrow> py_error + app" where
  "line91 outcome s = (case outcome of None \<Rightarrow> Inr s | Some e \<Rightarrow> Inl e)"

text \<open>
  Running statements in order. The result lists the states reached: the state before
  the first statement and the state after each statement that returned; with it comes
  the exception that stopped the run, if any.
\<close>

fun run :: "(app \<Rightarrow> py_error + app) list \<Rightarrow> app \<Rightarrow> app list \<times> py_error option" where
  "run [] s = ([s], None)"
| "run (f # fs) s =
     (case f s of
        Inl e \<Rightarrow> ([s], Some e)
      | Inr s' \<Rightarrow> (case run fs s' of (ss, r) \<Rightarrow> (s # ss, r)))"

text \<open>The statements after line 49, and the whole script.\<close>

definition downstream ::
  "(pystr \<Rightarrow> nat \<Rightarrow> pystr) \<Rightarrow> (int list \<Rightarrow> int option) \<Rightarrow> py_error option \<Rightarrow>
   (app \<Rightarrow> py_error + app) list" where
  "downstream lower_ucs4 pick weather =
     [line53_54 pick, line55, line91 weather, lines105_109, lines131_135, lines147_151,
      line174 lower_ucs4, lines185_187]"

definition script ::
  "clock \<Rightarrow> scalar permit list \<Rightarrow> status_row list \<Rightarrow> type_row list \<Rightarrow>
   (pystr \<Rightarrow> nat \<Rightarrow> pystr) \<Rightarrow> (int list \<Rightarrow> int option) \<Rightarrow> py_error option \<Rightarrow>
   app list \<times> py_error option" where
  "script clk records status types lower_ucs4 pick weather =
     (case line49 clk records status types of
        Inl e \<Rightarrow> ([], Some e)
      | Inr s \<Rightarrow> run (downstream lower_ucs4 pick weather) s)"

subsection \<open>Derived notions and example tables\<close>

text \<open>The date of a cell under \<open>errors="coerce"\<close>, which never raises.\<close>

definition date_or_NaT :: "clock \<Rightarrow> scalar \<Rightarrow> timestamp option" where
  "date_or_NaT clk c = (case to_datetime1 Coerce clk c of Inr t \<Rightarrow> t | Inl e \<Rightarrow> None)"

text \<open>A moment of a call: 4 November 2026.\<close>

definition example_clock :: clock where
  "example_clock = \<lparr>clock_now = Timestamp 2026 11 4, clock_today = Timestamp 2026 11 4\<rparr>"

text \<open>
  Two lookup tables of one row each and three permits: one with a valid date and zip
  code and matching lookup codes, one whose address ends in \<open>00000\<close>, and one with the
  date \<open>13/45/2020\<close>, a status without a lookup row and no type and description.
\<close>

definition status_table :: "status_row list" where
  "status_table = [\<lparr>lk_Status = Str (ascii ''Issued''), lk_FinalStatus = Some (ascii ''Approved'')\<rparr>]"

definition type_table :: "type_row list" where
  "type_table = [\<lparr>lk_RECORD_TYPE = Str (ascii ''RES''), lk_SimpleType = Some (ascii ''Residential'')\<rparr>]"

definition permit_ok :: "scalar permit" where
  "permit_ok =
     \<lparr>RECORD_STATUS = Str (ascii ''Issued''), RECORD_STATUS_DATE = Str (ascii ''03/15/2023''),
      RECORD_TYPE = Str (ascii ''RES''),
      ADDR_FULL_LINE = Str (ascii ''123 Main St, Atlanta, GA 30301''),
      DESCRIPTION = Str (ascii ''BATHROOM remodel'')\<rparr>"

definition permit_zero_zip :: "scalar permit" where
  "permit_zero_zip =
     \<lparr>RECORD_STATUS = Str (ascii ''Issued''), RECORD_STATUS_DATE = Str (ascii ''03/15/2023''),
      RECORD_TYPE = Str (ascii ''RES''),
      ADDR_FULL_LINE = Str (ascii ''123 Main St, Atlanta, GA 00000''),
      DESCRIPTION = Str (ascii ''New fence'')\<rparr>"

definition permit_bad_date :: "scalar permit" where
  "permit_bad_date =
     \<lparr>RECORD_STATUS = Str (ascii ''Pending''), RECORD_STATUS_DATE = Str (ascii ''13/45/2020''),
      RECORD_TYPE = NaN,
      ADDR_FULL_LINE = Str (ascii ''9 Oak Ave, Atlanta, GA 30301''),
      DESCRIPTION = NaN\<rparr>"

definition example_records :: "scalar permit list" where
  "example_records = [permit_ok, permit_zero_zip, permit_bad_date]"

text \<open>The two rows of the prepared table of the example.\<close>

definition prepared_ok :: prepared where
  "prepared_ok =
     \<lparr>RECORD_STATUS = Str (ascii ''Issued''), RECORD_STATUS_DATE = Some (Timestamp 2023 3 15),
      RECORD_TYPE = Str (ascii ''RES''),
      ADDR_FULL_LINE = Str (ascii ''123 Main St, Atlanta, GA 30301''),
      DESCRIPTION = Str (ascii ''BATHROOM remodel''),
      Status = Str (ascii ''Issued''), FinalStatus = Some (ascii ''Approved''),
      SimpleType = Some (ascii ''Residential''), Year = Some 2023, ZipCode = ascii ''30301''\<rparr>"

definition prepared_bad_date :: prepared where
  "prepared_bad_date =
     \<lparr>RECORD_STATUS = Str (ascii ''Pending''), RECORD_STATUS_DATE = None,
      RECORD_TYPE = NaN,
      ADDR_FULL_LINE = Str (ascii ''9 Oak Ave, Atlanta, GA 30301''),
      DESCRIPTION = NaN, Status = NaN, FinalStatus = None, SimpleType = None,
      Year = None, ZipCode = ascii ''30301''\<rparr>"

text \<open>
  A permit whose address ends in the five Arabic-Indic digits of 30301 (code points
  1632 to 1641 are the digits 0 to 9 of that script), and its row of the prepared table.
\<close>

definition permit_unicode_zip :: "scalar permit" where
  "permit_unicode_zip =
     \<lparr>RECORD_STATUS = Str (ascii ''Issued''), RECORD_STATUS_DATE = Str (ascii ''03/15/2023''),
      RECORD_TYPE = Str (ascii ''RES''),
      ADDR_FULL_LINE = Str (ascii ''1 Main St, Atlanta, GA '' @ [1635, 1632, 1635, 1632, 1633]),
      DESCRIPTION = Str (ascii ''New fence'')\<rparr>"

definition prepared_unicode_zip :: prepared where
  "prepared_unicode_zip =
     \<lparr>RECORD_STATUS = Str (ascii ''Issued''), RECORD_STATUS_DATE = Some (Timestamp 2023 3 15),
      RECORD_TYPE = Str (ascii ''RES''),
      ADDR_FULL_LINE = Str (ascii ''1 Main St, Atlanta, GA '' @ [1635, 1632, 1635, 1632, 1633]),
      DESCRIPTION = Str (ascii ''New fence''), Status = NaN, FinalStatus = None,
      SimpleType = None, Year = Some 2023, ZipCode = [1635, 1632, 1635, 1632, 1633]\<rparr>"

text \<open>
  A permit whose status code is the number 7, as \<open>read_csv\<close> reads a column of digit
  codes, and a permit dated with the text \<open>today\<close>, with its row of the prepared table
  at the moment of the example.
\<close>

definition permit_numeric_status :: "scalar permit" where
  "permit_numeric_status =
     \<lparr>RECORD_STATUS = IntVal 7, RECORD_STATUS_DATE = Str (ascii ''03/15/2023''),
      RECORD_TYPE = Str (ascii ''RES''),
      ADDR_FULL_LINE = Str (ascii ''123 Main St, Atlanta, GA 30301''),
      DESCRIPTION = Str (ascii ''New fence'')\<rparr>"

definition permit_today :: "scalar permit" where
  "permit_today =
     \<lparr>RECORD_STATUS = Str (ascii ''Issued''), RECORD_STATUS_DATE = Str (ascii ''today''),
      RECORD_TYPE = Str (ascii ''RES''),
      ADDR_FULL_LINE = Str (ascii ''123 Main St, Atlanta, GA 30301''),
      DESCRIPTION = Str (ascii ''New fence'')\<rparr>"

definition prepared_today :: prepared where
  "prepared_today =
     \<lparr>RECORD_STATUS = Str (ascii ''Issued''), RECORD_STATUS_DATE = Some (Timestamp 2026 11 4),
      RECORD_TYPE = Str (ascii ''RES''),
      ADDR_FULL_LINE = Str (ascii ''123 Main St, Atlanta, GA 30301''),
      DESCRIPTION = Str (ascii ''New fence''),
      Status = Str (ascii ''Issued''), FinalStatus = Some (ascii ''Approved''),
      SimpleType = Some (ascii ''Residential''), Year = Some 2026, ZipCode = ascii ''30301''\<rparr>"

text \<open>
  A row dated in 2042, and a state of the script after line 49 whose prepared table has
  that row and the two rows of the example.
\<close>

definition prepared_2042 :: prepared where
  "prepared_2042 = prepared_ok\<lparr>RECORD_STATUS_DATE := Some (Timestamp 2042 12 31), Year := Some 2042\<rparr>"

definition example_state :: app where
  "example_state =
     \<lparr>objs = (\<lambda>a. None)(0 \<mapsto> \<lparr>frame_rows = [prepared_2042, prepared_ok, prepared_bad_date],
                                   Description_lower = None\<rparr>),
      fresh = 1, v_df = 0, v_available_years = None, v_selected_year = None,
      v_df_filtered = None, v_combo_counts = None, v_zip_treemap_data = None,
      v_type_combo_counts = None, v_kpi = None\<rparr>"


section \<open>Properties\<close>

subsection \<open>Group-and-count\<close>

lemma set_unique: "set (unique xs) = set xs"
  by (induction xs rule: unique.induct) auto

lemma distinct_unique: "distinct (unique xs)"
  by (induction xs rule: unique.induct) (auto simp: set_unique)

lemma length_map_filter_conv:
  "length (List.map_filter f xs) = length (filter (\<lambda>x. f x \<noteq> None) xs)"
  by (induction xs) (auto simp: List.map_filter_def)

lemma count_list_map_filter:
  "count_list (List.map_filter f xs) k = length (filter (\<lambda>x. f x = Some k) xs)"
  by (induction xs) (auto simp: List.map_filter_simps split: option.splits)

lemma set_map_filter_conv: "set (List.map_filter f xs) = {y. \<exists>x\<in>set xs. f x = Some y}"
  by (induction xs) (auto simp: List.map_filter_simps split: option.splits)

text \<open>The counts of a group-and-count table add up to the number of rows with a key.\<close>

lemma total_count_groupby_size:
  "total_count (groupby_size key rows) = length (filter (\<lambda>r. key r \<noteq> None) rows)"
proof -
  define ks where "ks = List.map_filter key rows"
  have d: "distinct (sort (unique ks))" by (simp add: distinct_unique)
  have "total_count (groupby_size key rows) = sum_list (map (count_list ks) (sort (unique ks)))"
    by (simp add: total_count_def groupby_size_def ks_def comp_def Let_def)
  also have "\<dots> = sum (count_list ks) (set (sort (unique ks)))"
    using d by (simp add: sum_list_distinct_conv_sum_set)
  also have "\<dots> = sum (count_list ks) (set ks)" by (simp add: set_unique)
  also have "\<dots> = length ks" by (rule sum_count_set) simp_all
  finally show ?thesis by (simp add: ks_def length_map_filter_conv)
qed

text \<open>A group of the table is a key some row has, with the number of rows of that key.\<close>

lemma groupby_size_member:
  "(k, n) \<in> set (groupby_size key rows) \<longleftrightarrow>
     (n = length (filter (\<lambda>r. key r = Some k) rows) \<and> (\<exists>r\<in>set rows. key r = Some k))"
  by (auto simp: groupby_size_def Let_def set_unique count_list_map_filter set_map_filter_conv)

text \<open>
  C5. For every prepared table and every selected year, the counts of the zip-only
  aggregation of the year-filtered rows add up to the number of year-filtered rows. This
  holds for every selection, so in particular for every selectable year.
\<close>

theorem zip_counts_sum_to_filtered_rows:
  "total_count (zip_treemap_data (year_filter df selected_year)) =
     length (year_filter df selected_year)"
  by (simp add: zip_treemap_data_def total_count_groupby_size key_zip_def)

subsection \<open>Dates, joins and the prepared table\<close>

lemma parse_text_coerce: "\<exists>t. parse_text Coerce clk s = Inr t"
  by (simp add: parse_text_def split: option.splits)

lemma to_datetime1_coerce: "to_datetime1 Coerce clk c = Inr (date_or_NaT clk c)"
proof -
  have "\<exists>t. to_datetime1 Coerce clk c = Inr t"
    using parse_text_coerce by (cases c) (simp_all add: to_datetime1_def)
  then show ?thesis by (auto simp: date_or_NaT_def)
qed

lemma to_datetime_coerce: "to_datetime Coerce clk cs = Inr (map (date_or_NaT clk) cs)"
  by (induction cs) (simp_all add: to_datetime1_coerce)

lemma map2_map_same: "map2 f xs (map g xs) = map (\<lambda>x. f x (g x)) xs"
  by (induction xs) simp_all

lemma load_and_prepare_data_eq:
  "load_and_prepare_data clk records status types =
     (case joined records status types of
        Inl e \<Rightarrow> Inl e
      | Inr js \<Rightarrow>
          Inr (filter (\<lambda>r. zip_ok (ZipCode r))
                (map (\<lambda>j. derive_columns j (date_or_NaT clk (RECORD_STATUS_DATE j))) js)))"
proof -
  have m: "map2 derive_columns js (map (date_or_NaT clk \<circ> RECORD_STATUS_DATE) js) =
           map (\<lambda>j. derive_columns j (date_or_NaT clk (RECORD_STATUS_DATE j))) js"
    for js :: "scalar with_type list"
    using map2_map_same [of derive_columns js "date_or_NaT clk \<circ> RECORD_STATUS_DATE"]
    by (simp only: comp_def)
  show ?thesis
    unfolding load_and_prepare_data_def joined_def to_datetime_coerce
    by (simp add: m split: sum.splits)
qed

lemma date_or_NaT_Str:
  "s \<noteq> [] \<Longrightarrow> s \<notin> set nat_strings \<Longrightarrow> s \<noteq> ascii ''now'' \<Longrightarrow> s \<noteq> ascii ''today'' \<Longrightarrow>
   date_or_NaT clk (Str s) = strptime s"
  by (simp add: date_or_NaT_def to_datetime1_def parse_text_def split: option.splits)

lemma date_or_NaT_unparsable:
  "strptime d = None \<Longrightarrow> d \<noteq> ascii ''now'' \<Longrightarrow> d \<noteq> ascii ''today'' \<Longrightarrow>
   date_or_NaT clk (Str d) = None"
  by (simp add: date_or_NaT_def to_datetime1_def parse_text_def)

lemma date_or_NaT_today: "date_or_NaT clk (Str (ascii ''today'')) = Some (clock_today clk)"
  by (simp add: date_or_NaT_def to_datetime1_def parse_text_def nat_strings_def ascii_def)


lemma case_list_whole: "(case l of [] \<Rightarrow> a | x # xs \<Rightarrow> f (x # xs)) = (if l = [] then a else f l)"
  by (cases l) simp_all

lemma permit_of_join_status [simp]: "permit_of (join_status p s f) = p"
  by (cases p) (simp add: permit_of_def join_status_def)

lemma permit_of_join_type [simp]: "permit_of (join_type r t) = permit_of r"
  by (simp add: permit_of_def join_type_def)

lemma merge_status_Inl:
  "merge_status records status = Inl e \<longleftrightarrow>
     (e = ValueError \<and> \<not> keys_compatible (map RECORD_STATUS records) (map lk_Status status))"
  by (auto simp: merge_status_def)

lemma merge_types_Inl:
  "merge_types df types = Inl e \<longleftrightarrow>
     (e = ValueError \<and> \<not> keys_compatible (map RECORD_TYPE df) (map lk_RECORD_TYPE types))"
  by (auto simp: merge_types_def)

lemma set_status_rows:
  "set (case filter P status of
          [] \<Rightarrow> [join_status p NaN None]
        | x # xs \<Rightarrow> map (\<lambda>s. join_status p (lk_Status s) (lk_FinalStatus s)) (x # xs)) =
     {r. ((\<forall>s\<in>set status. \<not> P s) \<and> r = join_status p NaN None) \<or>
         (\<exists>s\<in>set status. P s \<and> r = join_status p (lk_Status s) (lk_FinalStatus s))}"
proof (cases "filter P status = []")
  case True
  then have "\<forall>s\<in>set status. \<not> P s" by (simp add: filter_empty_conv)
  with True show ?thesis by auto
next
  case False
  then have "\<exists>s\<in>set status. P s" by (simp add: filter_empty_conv)
  with False show ?thesis by (auto simp: case_list_whole)
qed

lemma set_merge_status:
  assumes "merge_status records status = Inr d"
  shows "set d =
     {r. \<exists>p\<in>set records.
           ((\<forall>s\<in>set status. \<not> status_match records status p s) \<and> r = join_status p NaN None) \<or>
           (\<exists>s\<in>set status. status_match records status p s \<and>
                r = join_status p (lk_Status s) (lk_FinalStatus s))}"
proof -
  have "d = concat (map (\<lambda>p.
        (case filter (status_match records status p) status of
           [] \<Rightarrow> [join_status p NaN None]
         | x # xs \<Rightarrow> map (\<lambda>s. join_status p (lk_Status s) (lk_FinalStatus s)) (x # xs))) records)"
    using assms by (simp add: merge_status_def split: if_splits)
  then have "set d = (\<Union>p\<in>set records.
      {r. ((\<forall>s\<in>set status. \<not> status_match records status p s) \<and> r = join_status p NaN None) \<or>
         (\<exists>s\<in>set status. status_match records status p s \<and>
              r = join_status p (lk_Status s) (lk_FinalStatus s))})"
    by (simp only: set_concat set_map image_image set_status_rows)
  then show ?thesis by blast
qed

lemma set_type_rows:
  "set (case filter P types of
          [] \<Rightarrow> [join_type r None]
        | x # xs \<Rightarrow> map (\<lambda>t. join_type r (lk_SimpleType t)) (x # xs)) =
     {r'. ((\<forall>t\<in>set types. \<not> P t) \<and> r' = join_type r None) \<or>
          (\<exists>t\<in>set types. P t \<and> r' = join_type r (lk_SimpleType t))}"
proof (cases "filter P types = []")
  case True
  then have "\<forall>t\<in>set types. \<not> P t" by (simp add: filter_empty_conv)
  with True show ?thesis by auto
next
  case False
  then have "\<exists>t\<in>set types. P t" by (simp add: filter_empty_conv)
  with False show ?thesis by (auto simp: case_list_whole)
qed

lemma set_merge_types:
  assumes "merge_types df types = Inr d"
  shows "set d =
     {r'. \<exists>r\<in>set df.
           ((\<forall>t\<in>set types. \<not> type_match df types r t) \<and> r' = join_type r None) \<or>
           (\<exists>t\<in>set types. type_match df types r t \<and> r' = join_type r (lk_SimpleType t))}"
proof -
  have "d = concat (map (\<lambda>r.
        (case filter (type_match df types r) types of
           [] \<Rightarrow> [join_type r None]
         | x # xs \<Rightarrow> map (\<lambda>t. join_type r (lk_SimpleType t)) (x # xs))) df)"
    using assms by (simp add: merge_types_def split: if_splits)
  then have "set d = (\<Union>r\<in>set df.
      {r'. ((\<forall>t\<in>set types. \<not> type_match df types r t) \<and> r' = join_type r None) \<or>
          (\<exists>t\<in>set types. type_match df types r t \<and> r' = join_type r (lk_SimpleType t))})"
    by (simp only: set_concat set_map image_image set_type_rows)
  then show ?thesis by blast
qed

lemma length_concat_nonempty:
  "(\<And>x. x \<in> set xs \<Longrightarrow> f x \<noteq> []) \<Longrightarrow> length xs \<le> length (concat (map f xs))"
proof (induction xs)
  case Nil
  then show ?case by simp
next
  case (Cons x xs)
  then have "f x \<noteq> []" by simp
  then have "1 \<le> length (f x)" by (cases "f x") simp_all
  moreover have "length xs \<le> length (concat (map f xs))" using Cons by simp
  ultimately show ?case by simp
qed

lemma length_merge_status:
  assumes "merge_status records status = Inr d"
  shows "length records \<le> length d"
proof -
  have "d = concat (map (\<lambda>p.
        (case filter (status_match records status p) status of
           [] \<Rightarrow> [join_status p NaN None]
         | x # xs \<Rightarrow> map (\<lambda>s. join_status p (lk_Status s) (lk_FinalStatus s)) (x # xs))) records)"
    using assms by (simp add: merge_status_def split: if_splits)
  then show ?thesis
    by (simp only:) (rule length_concat_nonempty, simp add: case_list_whole)
qed

lemma length_merge_types:
  assumes "merge_types df types = Inr d"
  shows "length df \<le> length d"
proof -
  have "d = concat (map (\<lambda>r.
        (case filter (type_match df types r) types of
           [] \<Rightarrow> [join_type r None]
         | x # xs \<Rightarrow> map (\<lambda>t. join_type r (lk_SimpleType t)) (x # xs))) df)"
    using assms by (simp add: merge_types_def split: if_splits)
  then show ?thesis
    by (simp only:) (rule length_concat_nonempty, simp add: case_list_whole)
qed

lemma FinalStatus_join [simp]:
  "FinalStatus (join_status p s f) = f" "Status (join_status p s f) = s"
  "SimpleType (join_type r t) = t" "FinalStatus (join_type r t) = FinalStatus r"
  "Status (join_type r t) = Status r" "RECORD_TYPE (join_status p s f) = RECORD_TYPE p"
  by (simp_all add: join_status_def join_type_def)

lemma permit_of_fields [simp]:
  "RECORD_STATUS (permit_of r) = RECORD_STATUS r"
  "RECORD_STATUS_DATE (permit_of r) = RECORD_STATUS_DATE r"
  "RECORD_TYPE (permit_of r) = RECORD_TYPE r"
  "ADDR_FULL_LINE (permit_of r) = ADDR_FULL_LINE r"
  "DESCRIPTION (permit_of r) = DESCRIPTION r"
  by (simp_all add: permit_of_def)

lemma derive_columns_fields [simp]:
  "RECORD_STATUS (derive_columns j t) = RECORD_STATUS j"
  "RECORD_STATUS_DATE (derive_columns j t) = t"
  "RECORD_TYPE (derive_columns j t) = RECORD_TYPE j"
  "ADDR_FULL_LINE (derive_columns j t) = ADDR_FULL_LINE j"
  "DESCRIPTION (derive_columns j t) = DESCRIPTION j"
  "Status (derive_columns j t) = Status j"
  "FinalStatus (derive_columns j t) = FinalStatus j"
  "SimpleType (derive_columns j t) = SimpleType j"
  "Year (derive_columns j t) = dt_year t"
  "ZipCode (derive_columns j t) = str_last5 (astype_str (ADDR_FULL_LINE j))"
  by (simp_all add: derive_columns_def)

lemma join_type_inject: "join_type r t = join_type r' t' \<longleftrightarrow> r = r' \<and> t = t'"
proof
  assume e: "join_type r t = join_type r' t'"
  have "SimpleType (join_type r t) = t" "SimpleType (join_type r' t') = t'"
    by (simp_all add: join_type_def)
  with e have t: "t = t'" by simp
  have f: "RECORD_STATUS (join_type r t) = RECORD_STATUS r"
    "RECORD_STATUS_DATE (join_type r t) = RECORD_STATUS_DATE r"
    "RECORD_TYPE (join_type r t) = RECORD_TYPE r"
    "ADDR_FULL_LINE (join_type r t) = ADDR_FULL_LINE r"
    "DESCRIPTION (join_type r t) = DESCRIPTION r"
    "Status (join_type r t) = Status r"
    "FinalStatus (join_type r t) = FinalStatus r" for r :: "'a with_status" and t
    by (simp_all add: join_type_def)
  have "RECORD_STATUS r = RECORD_STATUS r'" "RECORD_STATUS_DATE r = RECORD_STATUS_DATE r'"
    "RECORD_TYPE r = RECORD_TYPE r'" "ADDR_FULL_LINE r = ADDR_FULL_LINE r'"
    "DESCRIPTION r = DESCRIPTION r'" "Status r = Status r'" "FinalStatus r = FinalStatus r'"
    using f [of r t, symmetric] f [of r' t'] e by simp_all
  then have "r = r'" by (cases r, cases r') simp
  with t show "r = r' \<and> t = t'" by simp
next
  assume "r = r' \<and> t = t'"
  then show "join_type r t = join_type r' t'" by simp
qed

lemma joined_permit:
  assumes "joined records status types = Inr js" "p \<in> set records"
  shows "\<exists>j\<in>set js. permit_of j = p \<and>
           ((\<forall>s\<in>set status. \<not> status_match records status p s) \<longrightarrow>
              Status j = NaN \<and> FinalStatus j = None)"
proof -
  from assms(1) obtain d where d: "merge_status records status = Inr d"
    "merge_types d types = Inr js"
    by (auto simp: joined_def split: sum.splits)
  obtain r where r: "r \<in> set d" "permit_of r = p"
    "(\<forall>s\<in>set status. \<not> status_match records status p s) \<longrightarrow> Status r = NaN \<and> FinalStatus r = None"
  proof (cases "\<forall>s\<in>set status. \<not> status_match records status p s")
    case True
    with assms(2) have "join_status p NaN None \<in> set d"
      unfolding set_merge_status [OF d(1)] by blast
    then show ?thesis using that [of "join_status p NaN None"] by simp
  next
    case False
    then obtain s where s: "s \<in> set status" "status_match records status p s" by blast
    with assms(2) have "join_status p (lk_Status s) (lk_FinalStatus s) \<in> set d"
      unfolding set_merge_status [OF d(1)] by blast
    then show ?thesis using that [of "join_status p (lk_Status s) (lk_FinalStatus s)"] False by simp
  qed
  obtain j where j: "j \<in> set js" "permit_of j = permit_of r" "FinalStatus j = FinalStatus r"
    "Status j = Status r"
  proof (cases "\<forall>t\<in>set types. \<not> type_match d types r t")
    case True
    with r(1) have "join_type r None \<in> set js"
      unfolding set_merge_types [OF d(2)] by blast
    then show ?thesis using that [of "join_type r None"] by simp
  next
    case False
    then obtain t where t: "t \<in> set types" "type_match d types r t" by blast
    with r(1) have "join_type r (lk_SimpleType t) \<in> set js"
      unfolding set_merge_types [OF d(2)] by blast
    then show ?thesis using that [of "join_type r (lk_SimpleType t)"] by simp
  qed
  show ?thesis
    using j r by (auto intro!: bexI [of _ j])
qed

lemma set_load_and_prepare_data:
  assumes "load_and_prepare_data clk records status types = Inr df"
  shows "\<exists>js. joined records status types = Inr js \<and>
           df = filter (\<lambda>r. zip_ok (ZipCode r))
                  (map (\<lambda>j. derive_columns j (date_or_NaT clk (RECORD_STATUS_DATE j))) js)"
proof (cases "joined records status types")
  case (Inl e)
  with assms show ?thesis by (simp add: load_and_prepare_data_eq)
next
  case (Inr js)
  with assms show ?thesis by (simp add: load_and_prepare_data_eq)
qed

lemma load_and_prepare_data_Inl:
  "load_and_prepare_data clk records status types = Inl e \<longleftrightarrow> joined records status types = Inl e"
  by (cases "joined records status types") (simp_all add: load_and_prepare_data_eq)

subsection \<open>The example tables, evaluated\<close>

lemma strptime_ex1: "strptime (ascii ''03/15/2023'') = Some (Timestamp 2023 3 15)"
proof -
  have d: "isdecimal 48" "isdecimal 50" "isdecimal 51" by (simp_all add: isdecimal_def nd_zeros_def)
  have v: "digit_value 48 = 0" "digit_value 50 = 2" "digit_value 51 = 3" "digit_value 53 = 5"
    by (simp_all add: digit_value_def nd_zeros_def)
  have m: "parse_m [48, 51] = Some 3" by (simp add: parse_m_def)
  have dd: "parse_d [49, 53] = Some 15" using v by (simp add: parse_d_def isdecimal_def nd_zeros_def)
  have y: "parse_Y [50, 48, 50, 51] = Some 2023" using d v by (simp add: parse_Y_def int_of_digits_def)
  have s: "split_slash (ascii ''03/15/2023'') = [[48, 51], [49, 53], [50, 48, 50, 51]]"
    by (simp add: ascii_def)
  show ?thesis
    by (simp add: strptime_def s m dd y days_in_month_def in_ns_bounds_def)
qed

lemma date_or_NaT_ex1: "date_or_NaT clk (Str (ascii ''03/15/2023'')) = Some (Timestamp 2023 3 15)"
proof -
  have "ascii ''03/15/2023'' \<noteq> []" "ascii ''03/15/2023'' \<notin> set nat_strings"
    "ascii ''03/15/2023'' \<noteq> ascii ''now''" "ascii ''03/15/2023'' \<noteq> ascii ''today''"
    by (simp_all add: ascii_def nat_strings_def)
  then show ?thesis by (simp add: date_or_NaT_Str strptime_ex1)
qed

lemma strptime_bad_date: "strptime (ascii ''13/45/2020'') = None"
proof -
  have s: "split_slash (ascii ''13/45/2020'') = [[49, 51], [52, 53], [50, 48, 50, 48]]"
    by (simp add: ascii_def)
  have m: "parse_m [49, 51] = None" by (simp add: parse_m_def)
  show ?thesis by (simp add: strptime_def s m)
qed

lemma bad_date_not_now:
  "ascii ''13/45/2020'' \<noteq> ascii ''now''" "ascii ''13/45/2020'' \<noteq> ascii ''today''"
  by (simp_all add: ascii_def)

lemma date_or_NaT_bad_date: "date_or_NaT clk (Str (ascii ''13/45/2020'')) = None"
  by (simp add: date_or_NaT_unparsable strptime_bad_date bad_date_not_now)

lemma strptime_today: "strptime (ascii ''today'') = None"
  by (simp add: strptime_def ascii_def)

lemma zip_ok_unicode: "zip_ok [1635, 1632, 1635, 1632, 1633]"
proof -
  have "isdecimal 1632" "isdecimal 1633" "isdecimal 1635"
    by (simp_all add: isdecimal_def nd_zeros_def)
  then show ?thesis by (simp add: zip_ok_def str_match_zip_def ascii_def)
qed

lemma last5_unicode:
  "str_last5 (astype_str (Str (ascii ''1 Main St, Atlanta, GA '' @ [1635, 1632, 1635, 1632, 1633])))
     = [1635, 1632, 1635, 1632, 1633]"
  by (simp add: str_last5_def astype_str_def ascii_def)

lemma isdecimal_ascii: "isdecimal c \<Longrightarrow> c < 128 \<Longrightarrow> ascii_digit c"
  by (auto simp: isdecimal_def nd_zeros_def ascii_digit_def)

lemma length_str_last5: "length (str_last5 s) \<le> 5"
  by (simp add: str_last5_def)

lemma zip_ok_last5:
  "zip_ok (str_last5 s) \<longleftrightarrow>
     (length (str_last5 s) = 5 \<and> list_all isdecimal (str_last5 s) \<and> str_last5 s \<noteq> ascii ''00000'')"
  using length_str_last5 [of s] by (auto simp: zip_ok_def str_match_zip_def)

lemma zip_ok_30301: "zip_ok (ascii ''30301'')"
proof -
  have "isdecimal 48" "isdecimal 49" "isdecimal 51"
    by (simp_all add: isdecimal_def nd_zeros_def)
  then show ?thesis by (simp add: zip_ok_def str_match_zip_def ascii_def)
qed

lemma not_zip_ok_00000: "\<not> zip_ok (ascii ''00000'')"
  by (simp add: zip_ok_def)

lemma last5_examples:
  "str_last5 (astype_str (Str (ascii ''123 Main St, Atlanta, GA 30301''))) = ascii ''30301''"
  "str_last5 (astype_str (Str (ascii ''123 Main St, Atlanta, GA 00000''))) = ascii ''00000''"
  "str_last5 (astype_str (Str (ascii ''9 Oak Ave, Atlanta, GA 30301''))) = ascii ''30301''"
  by (simp_all add: str_last5_def astype_str_def ascii_def)

lemma example_keys:
  "ascii ''Pending'' \<noteq> ascii ''Issued''"
  by (simp_all add: ascii_def)

text \<open>The key columns of the example tables are \<open>object\<close> columns.\<close>

lemma dtype_of_Str: "Str s \<in> set vs \<Longrightarrow> dtype_of vs = ObjectD"
  by (auto simp: dtype_of_def list_all_iff is_int_def is_number_or_nan_def is_bool_def)

lemma keys_compatible_object:
  "dtype_of lk = ObjectD \<Longrightarrow> dtype_of rk = ObjectD \<Longrightarrow> keys_compatible lk rk"
  by (simp add: keys_compatible_def)

lemma key_match_object: "key_match ObjectD ObjectD a b = py_eq a b"
  by (simp add: key_match_def)

lemma py_eq_simps [simp]:
  "py_eq (Str s) (Str t) \<longleftrightarrow> s = t" "py_eq NaN NaN"
  "\<not> py_eq (Str s) NaN" "\<not> py_eq NaN (Str s)"
  "\<not> py_eq (Str s) (IntVal i)" "\<not> py_eq (IntVal i) (Str s)"
  by (simp_all add: py_eq_def num_of_def)

lemma merge_status_object:
  assumes "dtype_of (map RECORD_STATUS records) = ObjectD"
    and "dtype_of (map lk_Status status) = ObjectD"
  shows "merge_status records status =
     Inr (concat (map (\<lambda>p.
        (case filter (\<lambda>s. py_eq (RECORD_STATUS p) (lk_Status s)) status of
           [] \<Rightarrow> [join_status p NaN None]
         | ms \<Rightarrow> map (\<lambda>s. join_status p (lk_Status s) (lk_FinalStatus s)) ms)) records))"
  using assms keys_compatible_object [OF assms]
  by (simp add: merge_status_def status_match_def [abs_def] key_match_object)

lemma merge_types_object:
  assumes "dtype_of (map RECORD_TYPE df) = ObjectD"
    and "dtype_of (map lk_RECORD_TYPE types) = ObjectD"
  shows "merge_types df types =
     Inr (concat (map (\<lambda>r.
        (case filter (\<lambda>t. py_eq (RECORD_TYPE r) (lk_RECORD_TYPE t)) types of
           [] \<Rightarrow> [join_type r None]
         | ms \<Rightarrow> map (\<lambda>t. join_type r (lk_SimpleType t)) ms)) df))"
  using assms keys_compatible_object [OF assms]
  by (simp add: merge_types_def type_match_def [abs_def] key_match_object)

lemma example_dtypes:
  "dtype_of (map RECORD_STATUS example_records) = ObjectD"
  "dtype_of (map lk_Status status_table) = ObjectD"
  "dtype_of (map lk_RECORD_TYPE type_table) = ObjectD"
  by (rule dtype_of_Str [of "ascii ''Issued''"], simp add: example_records_def permit_ok_def)
     (rule dtype_of_Str [of "ascii ''Issued''"], simp add: status_table_def,
      rule dtype_of_Str [of "ascii ''RES''"], simp add: type_table_def)

lemma merge_status_example:
  "merge_status example_records status_table =
     Inr [join_status permit_ok (Str (ascii ''Issued'')) (Some (ascii ''Approved'')),
          join_status permit_zero_zip (Str (ascii ''Issued'')) (Some (ascii ''Approved'')),
          join_status permit_bad_date NaN None]"
  unfolding merge_status_object [OF example_dtypes(1,2)]
  using example_keys
  by (simp add: example_records_def status_table_def permit_ok_def permit_zero_zip_def
        permit_bad_date_def)

lemma joined_example:
  "joined example_records status_table type_table =
     Inr [join_type (join_status permit_ok (Str (ascii ''Issued'')) (Some (ascii ''Approved'')))
                (Some (ascii ''Residential'')),
          join_type (join_status permit_zero_zip (Str (ascii ''Issued'')) (Some (ascii ''Approved'')))
                (Some (ascii ''Residential'')),
          join_type (join_status permit_bad_date NaN None) None]"
proof -
  let ?d = "[join_status permit_ok (Str (ascii ''Issued'')) (Some (ascii ''Approved'')),
          join_status permit_zero_zip (Str (ascii ''Issued'')) (Some (ascii ''Approved'')),
          join_status permit_bad_date NaN None]"
  have t: "dtype_of (map RECORD_TYPE ?d) = ObjectD"
    by (rule dtype_of_Str [of "ascii ''RES''"]) (simp add: permit_ok_def)
  show ?thesis
    unfolding joined_def merge_status_example
    by (simp add: merge_types_object [OF t example_dtypes(3)])
       (simp add: type_table_def permit_ok_def permit_zero_zip_def permit_bad_date_def)
qed

lemma load_example:
  "load_and_prepare_data clk example_records status_table type_table =
     Inr [prepared_ok, prepared_bad_date]"
proof -
  have a: "derive_columns (join_type (join_status permit_ok (Str (ascii ''Issued''))
             (Some (ascii ''Approved''))) (Some (ascii ''Residential'')))
             (Some (Timestamp 2023 3 15)) = prepared_ok"
    by (simp add: derive_columns_def join_type_def join_status_def permit_ok_def prepared_ok_def
          last5_examples dt_year_def)
  have b: "str_last5 (astype_str (ADDR_FULL_LINE (join_type (join_status permit_zero_zip
             (Str (ascii ''Issued'')) (Some (ascii ''Approved''))) (Some (ascii ''Residential'')))))
             = ascii ''00000''"
    by (simp add: join_type_def join_status_def permit_zero_zip_def last5_examples)
  have c: "derive_columns (join_type (join_status permit_bad_date NaN None) None) None
             = prepared_bad_date"
    by (simp add: derive_columns_def join_type_def join_status_def permit_bad_date_def
          prepared_bad_date_def last5_examples dt_year_def)
  have d: "RECORD_STATUS_DATE (join_type (join_status permit_ok s f) t) = Str (ascii ''03/15/2023'')"
    "RECORD_STATUS_DATE (join_type (join_status permit_bad_date s f) t) = Str (ascii ''13/45/2020'')"
    for s f t
    by (simp_all add: join_type_def join_status_def permit_ok_def permit_bad_date_def)
  have z: "ZipCode prepared_ok = ascii ''30301''" "ZipCode prepared_bad_date = ascii ''30301''"
    by (simp_all add: prepared_ok_def prepared_bad_date_def)
  show ?thesis
    unfolding load_and_prepare_data_eq joined_example
    by (simp add: d date_or_NaT_ex1 date_or_NaT_bad_date a b c z zip_ok_30301 not_zip_ok_00000)
qed

subsection \<open>The zip code filter\<close>

text \<open>
  C1, as the code has it. Every row of the prepared table has a ZipCode that is the last
  five characters of its address, has exactly five characters, each a decimal digit in
  the sense of \<open>\d\<close> (any Unicode decimal digit), and is not the text \<open>00000\<close>; when the
  five characters are ASCII they are the digits \<open>0\<close> to \<open>9\<close>. Every permit whose trailing
  five characters fail this test has no row in the prepared table.
\<close>

theorem prepared_zip_codes_are_decimal:
  assumes "load_and_prepare_data clk records status types = Inr df"
  shows "(\<forall>r\<in>set df.
            ZipCode r = str_last5 (astype_str (ADDR_FULL_LINE r)) \<and>
            length (ZipCode r) = 5 \<and> list_all isdecimal (ZipCode r) \<and>
            ZipCode r \<noteq> ascii ''00000'' \<and>
            (list_all (\<lambda>c. c < 128) (ZipCode r) \<longrightarrow> list_all ascii_digit (ZipCode r))) \<and>
         (\<forall>p\<in>set records.
            \<not> (length (str_last5 (astype_str (ADDR_FULL_LINE p))) = 5 \<and>
               list_all isdecimal (str_last5 (astype_str (ADDR_FULL_LINE p))) \<and>
               str_last5 (astype_str (ADDR_FULL_LINE p)) \<noteq> ascii ''00000'') \<longrightarrow>
            (\<forall>r\<in>set df. ADDR_FULL_LINE r \<noteq> ADDR_FULL_LINE p))"
proof -
  from set_load_and_prepare_data [OF assms]
  obtain js where js: "df = filter (\<lambda>r. zip_ok (ZipCode r))
                  (map (\<lambda>j. derive_columns j (date_or_NaT clk (RECORD_STATUS_DATE j))) js)"
    by blast
  have row: "ZipCode r = str_last5 (astype_str (ADDR_FULL_LINE r)) \<and> zip_ok (ZipCode r)"
    if "r \<in> set df" for r
    using that unfolding js by auto
  have ok: "length (ZipCode r) = 5 \<and> list_all isdecimal (ZipCode r) \<and>
            ZipCode r \<noteq> ascii ''00000''" if "r \<in> set df" for r
    using row [OF that] by (metis zip_ok_last5)
  have asc: "list_all (\<lambda>c. c < 128) (ZipCode r) \<longrightarrow> list_all ascii_digit (ZipCode r)"
    if "r \<in> set df" for r
    using ok [OF that] by (auto simp: list_all_iff intro: isdecimal_ascii)
  have dropped: "ADDR_FULL_LINE r \<noteq> ADDR_FULL_LINE p"
    if "r \<in> set df"
       "\<not> (length (str_last5 (astype_str (ADDR_FULL_LINE p))) = 5 \<and>
          list_all isdecimal (str_last5 (astype_str (ADDR_FULL_LINE p))) \<and>
          str_last5 (astype_str (ADDR_FULL_LINE p)) \<noteq> ascii ''00000'')"
    for r and p :: "scalar permit"
    using ok [OF that(1)] row [OF that(1)] that(2) by auto
  show ?thesis using row ok asc dropped by blast
qed

text \<open>
  The example tables: both rows of the prepared table have the ZipCode \<open>30301\<close>, and the
  permit whose address ends in \<open>00000\<close> has no row.
\<close>

theorem prepared_zip_codes_are_decimal_witness:
  "load_and_prepare_data example_clock example_records status_table type_table =
     Inr [prepared_ok, prepared_bad_date] \<and>
   ZipCode prepared_ok = ascii ''30301'' \<and> list_all ascii_digit (ZipCode prepared_ok) \<and>
   ZipCode prepared_bad_date = ascii ''30301'' \<and> list_all ascii_digit (ZipCode prepared_bad_date) \<and>
   permit_zero_zip \<in> set example_records \<and>
   str_last5 (astype_str (ADDR_FULL_LINE permit_zero_zip)) = ascii ''00000'' \<and>
   ADDR_FULL_LINE prepared_ok \<noteq> ADDR_FULL_LINE permit_zero_zip \<and>
   ADDR_FULL_LINE prepared_bad_date \<noteq> ADDR_FULL_LINE permit_zero_zip"
proof -
  have z: "ZipCode prepared_ok = ascii ''30301''" "ZipCode prepared_bad_date = ascii ''30301''"
    by (simp_all add: prepared_ok_def prepared_bad_date_def)
  have lt: "list_all (\<lambda>c. c < 128) (ascii ''30301'')" by (simp add: ascii_def)
  have m: "permit_zero_zip \<in> set example_records" by (simp add: example_records_def)
  have b: "str_last5 (astype_str (ADDR_FULL_LINE permit_zero_zip)) = ascii ''00000''"
    by (simp add: permit_zero_zip_def last5_examples)
  note T = prepared_zip_codes_are_decimal [OF load_example [of example_clock]]
  from T have "\<forall>r\<in>set [prepared_ok, prepared_bad_date].
      list_all (\<lambda>c. c < 128) (ZipCode r) \<longrightarrow> list_all ascii_digit (ZipCode r)"
    by blast
  then have d: "list_all ascii_digit (ZipCode prepared_ok)"
    "list_all ascii_digit (ZipCode prepared_bad_date)"
    using lt by (simp_all add: z)
  have "\<not> (length (str_last5 (astype_str (ADDR_FULL_LINE permit_zero_zip))) = 5 \<and>
           list_all isdecimal (str_last5 (astype_str (ADDR_FULL_LINE permit_zero_zip))) \<and>
           str_last5 (astype_str (ADDR_FULL_LINE permit_zero_zip)) \<noteq> ascii ''00000'')"
    by (simp add: b)
  with T m have "\<forall>r\<in>set [prepared_ok, prepared_bad_date].
      ADDR_FULL_LINE r \<noteq> ADDR_FULL_LINE permit_zero_zip"
    by blast
  then have e: "ADDR_FULL_LINE prepared_ok \<noteq> ADDR_FULL_LINE permit_zero_zip"
    "ADDR_FULL_LINE prepared_bad_date \<noteq> ADDR_FULL_LINE permit_zero_zip"
    by simp_all
  show ?thesis using load_example [of example_clock] z d m b e by simp
qed

lemma keys_compatible_no_right [simp]: "lk \<noteq> [] \<Longrightarrow> keys_compatible lk []"
  by (simp add: keys_compatible_def)

lemma joined_no_lookup:
  "joined [p] [] [] = Inr [join_type (join_status p NaN None) None]"
  by (simp add: joined_def merge_status_def merge_types_def)

text \<open>
  C1 as stated fails: a permit whose address ends in five Arabic-Indic digits is kept,
  and its ZipCode is not made of ASCII digits.
\<close>

theorem unicode_zip_counterexample:
  "load_and_prepare_data example_clock [permit_unicode_zip] [] [] = Inr [prepared_unicode_zip] \<and>
   ZipCode prepared_unicode_zip = [1635, 1632, 1635, 1632, 1633] \<and>
   \<not> list_all ascii_digit (ZipCode prepared_unicode_zip)"
proof -
  have a: "ADDR_FULL_LINE (join_type (join_status permit_unicode_zip NaN None) None) =
             Str (ascii ''1 Main St, Atlanta, GA '' @ [1635, 1632, 1635, 1632, 1633])"
    and d: "RECORD_STATUS_DATE (join_type (join_status permit_unicode_zip NaN None) None) =
             Str (ascii ''03/15/2023'')"
    by (simp_all add: join_type_def join_status_def permit_unicode_zip_def)
  have r: "derive_columns (join_type (join_status permit_unicode_zip NaN None) None)
             (Some (Timestamp 2023 3 15)) = prepared_unicode_zip"
    by (simp add: derive_columns_def a last5_unicode dt_year_def)
       (simp add: join_type_def join_status_def permit_unicode_zip_def prepared_unicode_zip_def)
  have z: "ZipCode prepared_unicode_zip = [1635, 1632, 1635, 1632, 1633]"
    by (simp add: prepared_unicode_zip_def)
  have "load_and_prepare_data example_clock [permit_unicode_zip] [] [] = Inr [prepared_unicode_zip]"
    by (simp add: load_and_prepare_data_eq joined_no_lookup d date_or_NaT_ex1 r z zip_ok_unicode)
  moreover have "\<not> list_all ascii_digit (ZipCode prepared_unicode_zip)"
    by (simp add: z ascii_digit_def)
  ultimately show ?thesis using z by simp
qed

subsection \<open>The status-keyed aggregations\<close>

lemma key_zip_status_eq:
  "key_zip_status r = Some k \<longleftrightarrow> (ZipCode r = fst k \<and> FinalStatus r = Some (snd k))"
  by (cases k) (auto simp: key_zip_status_def split: option.splits)

lemma key_type_status_eq:
  "key_type_status r = Some k \<longleftrightarrow> (SimpleType r = Some (fst k) \<and> FinalStatus r = Some (snd k))"
  by (cases k) (auto simp: key_type_status_def split: option.splits)

lemma key_zip_status_None: "key_zip_status r = None \<longleftrightarrow> FinalStatus r = None"
  by (simp add: key_zip_status_def split: option.splits)

lemma key_type_status_None:
  "key_type_status r = None \<longleftrightarrow> (SimpleType r = None \<or> FinalStatus r = None)"
  by (simp add: key_type_status_def split: option.splits)

text \<open>
  C10. In the aggregations by (ZipCode, FinalStatus) and by (SimpleType, FinalStatus)
  the count of a group is the number of rows that have exactly its key values, so a row
  with a missing FinalStatus (or SimpleType) is counted in no group. The counts add up
  to the number of rows without a missing key, which is strictly less than the number
  of rows as soon as one row has a missing key.
\<close>

theorem status_keyed_counts_skip_null_rows:
  "(\<forall>k n. (k, n) \<in> set (combo_counts rows) \<longrightarrow>
       n = length (filter (\<lambda>r. ZipCode r = fst k \<and> FinalStatus r = Some (snd k)) rows)) \<and>
   (\<forall>k n. (k, n) \<in> set (type_combo_counts rows) \<longrightarrow>
       n = length (filter (\<lambda>r. SimpleType r = Some (fst k) \<and> FinalStatus r = Some (snd k)) rows)) \<and>
   total_count (combo_counts rows) = length (filter (\<lambda>r. FinalStatus r \<noteq> None) rows) \<and>
   total_count (type_combo_counts rows) =
     length (filter (\<lambda>r. SimpleType r \<noteq> None \<and> FinalStatus r \<noteq> None) rows) \<and>
   ((\<exists>r\<in>set rows. FinalStatus r = None) \<longrightarrow> total_count (combo_counts rows) < length rows) \<and>
   ((\<exists>r\<in>set rows. SimpleType r = None \<or> FinalStatus r = None) \<longrightarrow>
       total_count (type_combo_counts rows) < length rows)"
proof -
  have a: "total_count (combo_counts rows) = length (filter (\<lambda>r. FinalStatus r \<noteq> None) rows)"
    by (simp add: combo_counts_def total_count_groupby_size key_zip_status_None)
  have b: "total_count (type_combo_counts rows) =
     length (filter (\<lambda>r. SimpleType r \<noteq> None \<and> FinalStatus r \<noteq> None) rows)"
    by (simp add: type_combo_counts_def total_count_groupby_size key_type_status_None)
  have c: "(\<exists>r\<in>set rows. FinalStatus r = None) \<longrightarrow> total_count (combo_counts rows) < length rows"
    unfolding a by (auto intro: length_filter_less)
  have d: "(\<exists>r\<in>set rows. SimpleType r = None \<or> FinalStatus r = None) \<longrightarrow>
       total_count (type_combo_counts rows) < length rows"
    unfolding b by (auto intro: length_filter_less)
  have e: "\<forall>k n. (k, n) \<in> set (combo_counts rows) \<longrightarrow>
       n = length (filter (\<lambda>r. ZipCode r = fst k \<and> FinalStatus r = Some (snd k)) rows)"
    by (simp add: combo_counts_def groupby_size_member key_zip_status_eq)
  have f: "\<forall>k n. (k, n) \<in> set (type_combo_counts rows) \<longrightarrow>
       n = length (filter (\<lambda>r. SimpleType r = Some (fst k) \<and> FinalStatus r = Some (snd k)) rows)"
    by (simp add: type_combo_counts_def groupby_size_member key_type_status_eq)
  from a b c d e f show ?thesis by blast
qed

text \<open>
  The two rows of the example: the row without a lookup match is in no group, and both
  aggregations count one row of two.
\<close>

theorem status_keyed_counts_skip_null_rows_witness:
  "(\<exists>r\<in>set [prepared_ok, prepared_bad_date]. FinalStatus r = None) \<and>
   total_count (combo_counts [prepared_ok, prepared_bad_date]) = 1 \<and>
   total_count (type_combo_counts [prepared_ok, prepared_bad_date]) = 1 \<and>
   total_count (combo_counts [prepared_ok, prepared_bad_date]) < length [prepared_ok, prepared_bad_date] \<and>
   total_count (type_combo_counts [prepared_ok, prepared_bad_date]) < length [prepared_ok, prepared_bad_date]"
  using status_keyed_counts_skip_null_rows [of "[prepared_ok, prepared_bad_date]"]
  by (simp add: prepared_ok_def prepared_bad_date_def)

subsection \<open>The joins\<close>

lemma prepared_row_of_permit:
  assumes "load_and_prepare_data clk records status types = Inr df"
    and "p \<in> set records"
    and "zip_ok (str_last5 (astype_str (ADDR_FULL_LINE p)))"
  shows "\<exists>r\<in>set df.
           RECORD_STATUS r = RECORD_STATUS p \<and> RECORD_TYPE r = RECORD_TYPE p \<and>
           ADDR_FULL_LINE r = ADDR_FULL_LINE p \<and> DESCRIPTION r = DESCRIPTION p \<and>
           RECORD_STATUS_DATE r = date_or_NaT clk (RECORD_STATUS_DATE p) \<and>
           Year r = dt_year (date_or_NaT clk (RECORD_STATUS_DATE p)) \<and>
           ((\<forall>s\<in>set status. \<not> status_match records status p s) \<longrightarrow>
              Status r = NaN \<and> FinalStatus r = None)"
proof -
  from set_load_and_prepare_data [OF assms(1)]
  obtain js where js: "joined records status types = Inr js"
    "df = filter (\<lambda>r. zip_ok (ZipCode r))
            (map (\<lambda>j. derive_columns j (date_or_NaT clk (RECORD_STATUS_DATE j))) js)"
    by blast
  from joined_permit [OF js(1) assms(2)]
  obtain j where j: "j \<in> set js" "permit_of j = p"
    "(\<forall>s\<in>set status. \<not> status_match records status p s) \<longrightarrow> Status j = NaN \<and> FinalStatus j = None"
    by blast
  have f: "RECORD_STATUS j = RECORD_STATUS p" "RECORD_TYPE j = RECORD_TYPE p"
    "ADDR_FULL_LINE j = ADDR_FULL_LINE p" "DESCRIPTION j = DESCRIPTION p"
    "RECORD_STATUS_DATE j = RECORD_STATUS_DATE p"
    using permit_of_fields [of j] j(2) by simp_all
  let ?r = "derive_columns j (date_or_NaT clk (RECORD_STATUS_DATE j))"
  have "?r \<in> set df"
    using j(1) assms(3) f(3) unfolding js(2) by auto
  then show ?thesis
    using j(3) f by (intro bexI [of _ ?r]) simp_all
qed



lemma status_match_example:
  "status_match example_records status_table p s = py_eq (RECORD_STATUS p) (lk_Status s)"
  by (simp add: status_match_def example_dtypes key_match_object)


lemma numeric_status_dtypes:
  "dtype_of (map RECORD_STATUS [permit_numeric_status]) = Int64D"
  by (simp add: dtype_of_def permit_numeric_status_def is_int_def)

lemma numeric_status_incompatible:
  "\<not> keys_compatible (map RECORD_STATUS [permit_numeric_status]) (map lk_Status status_table)"
proof -
  have "\<not> list_ex is_int (map lk_Status status_table)"
    by (simp add: status_table_def is_int_def)
  moreover have "status_table \<noteq> []" by (simp add: status_table_def)
  ultimately show ?thesis
    using numeric_status_dtypes example_dtypes(2)
    by (simp add: keys_compatible_def)
qed


subsection \<open>The dates\<close>

lemma year_filter_has_year: "r \<in> set (year_filter df sel) \<Longrightarrow> \<exists>y. Year r = Some y \<and> sel = Some y"
  by (auto simp: year_filter_def split: option.splits)




lemma joined_ok_today:
  "joined [permit_ok, permit_today] status_table type_table =
     Inr [join_type (join_status permit_ok (Str (ascii ''Issued'')) (Some (ascii ''Approved'')))
                (Some (ascii ''Residential'')),
          join_type (join_status permit_today (Str (ascii ''Issued'')) (Some (ascii ''Approved'')))
                (Some (ascii ''Residential''))]"
proof -
  have s: "dtype_of (map RECORD_STATUS [permit_ok, permit_today]) = ObjectD"
    by (rule dtype_of_Str [of "ascii ''Issued''"]) (simp add: permit_ok_def)
  have m: "merge_status [permit_ok, permit_today] status_table =
     Inr [join_status permit_ok (Str (ascii ''Issued'')) (Some (ascii ''Approved'')),
          join_status permit_today (Str (ascii ''Issued'')) (Some (ascii ''Approved''))]"
    unfolding merge_status_object [OF s example_dtypes(2)]
    by (simp add: status_table_def permit_ok_def permit_today_def)
  let ?d = "[join_status permit_ok (Str (ascii ''Issued'')) (Some (ascii ''Approved'')),
          join_status permit_today (Str (ascii ''Issued'')) (Some (ascii ''Approved''))]"
  have t: "dtype_of (map RECORD_TYPE ?d) = ObjectD"
    by (rule dtype_of_Str [of "ascii ''RES''"]) (simp add: permit_ok_def)
  show ?thesis
    unfolding joined_def m
    by (simp add: merge_types_object [OF t example_dtypes(3)])
       (simp add: type_table_def permit_ok_def permit_today_def)
qed

lemma load_ok_today:
  "load_and_prepare_data example_clock [permit_ok, permit_today] status_table type_table =
     Inr [prepared_ok, prepared_today]"
proof -
  have a: "derive_columns (join_type (join_status permit_ok (Str (ascii ''Issued''))
             (Some (ascii ''Approved''))) (Some (ascii ''Residential'')))
             (Some (Timestamp 2023 3 15)) = prepared_ok"
    by (simp add: derive_columns_def join_type_def join_status_def permit_ok_def prepared_ok_def
          last5_examples dt_year_def)
  have c: "derive_columns (join_type (join_status permit_today (Str (ascii ''Issued''))
             (Some (ascii ''Approved''))) (Some (ascii ''Residential'')))
             (Some (Timestamp 2026 11 4)) = prepared_today"
    by (simp add: derive_columns_def join_type_def join_status_def permit_today_def
          prepared_today_def last5_examples dt_year_def)
  have d: "RECORD_STATUS_DATE (join_type (join_status permit_ok s f) t) = Str (ascii ''03/15/2023'')"
    "RECORD_STATUS_DATE (join_type (join_status permit_today s f) t) = Str (ascii ''today'')"
    for s f t
    by (simp_all add: join_type_def join_status_def permit_ok_def permit_today_def)
  have k: "clock_today example_clock = Timestamp 2026 11 4" by (simp add: example_clock_def)
  have z: "ZipCode prepared_ok = ascii ''30301''" "ZipCode prepared_today = ascii ''30301''"
    by (simp_all add: prepared_ok_def prepared_today_def)
  show ?thesis
    unfolding load_and_prepare_data_eq joined_ok_today
    by (simp add: d date_or_NaT_ex1 date_or_NaT_today k a c z zip_ok_30301)
qed

lemma load_all_types_missing:
  "load_and_prepare_data example_clock [permit_bad_date] status_table type_table = Inl ValueError"
proof -
  have s: "dtype_of (map RECORD_STATUS [permit_bad_date]) = ObjectD"
    by (rule dtype_of_Str [of "ascii ''Pending''"]) (simp add: permit_bad_date_def)
  have m: "merge_status [permit_bad_date] status_table = Inr [join_status permit_bad_date NaN None]"
    unfolding merge_status_object [OF s example_dtypes(2)]
    using example_keys by (simp add: status_table_def permit_bad_date_def)
  have f: "dtype_of (map RECORD_TYPE [join_status permit_bad_date NaN None]) = Float64D"
    by (simp add: dtype_of_def permit_bad_date_def is_int_def is_number_or_nan_def)
  have "\<not> list_ex is_int (map lk_RECORD_TYPE type_table)" "type_table \<noteq> []"
    by (simp_all add: type_table_def is_int_def)
  then have "\<not> keys_compatible (map RECORD_TYPE [join_status permit_bad_date NaN None])
               (map lk_RECORD_TYPE type_table)"
    using f example_dtypes(3) by (simp add: keys_compatible_def)
  then have "merge_types [join_status permit_bad_date NaN None] type_table = Inl ValueError"
    by (simp add: merge_types_Inl)
  then have "joined [permit_bad_date] status_table type_table = Inl ValueError"
    by (simp add: joined_def m)
  then show ?thesis by (simp add: load_and_prepare_data_Inl)
qed


subsection \<open>The year selector\<close>

lemma set_dropna: "set (dropna xs) = {y. Some y \<in> set xs}"
  by (auto simp: dropna_def set_map_filter_conv)

lemma set_available_years:
  "set (available_years df) = {y. Some y \<in> Year ` set df \<and> y \<noteq> 2042}"
  by (auto simp: available_years_def set_unique set_dropna)

lemma distinct_available_years: "distinct (available_years df)"
  by (simp add: available_years_def distinct_unique)

lemma sorted_rev_available_years: "sorted (rev (available_years df))"
  by (simp add: available_years_def)

lemma descending_available_years: "sorted_wrt (\<lambda>a b. b < a) (available_years df)"
proof -
  have "sorted_wrt (<) (rev (available_years df))"
    using sorted_rev_available_years [of df] distinct_available_years [of df]
    by (simp add: strict_sorted_iff)
  then show ?thesis by (simp add: sorted_wrt_rev)
qed

lemma descending_hd_Max:
  fixes xs :: "int list"
  assumes "sorted_wrt (\<lambda>a b. b < a) xs" "xs \<noteq> []"
  shows "hd xs = Max (set xs)"
proof (cases xs)
  case Nil
  with assms show ?thesis by simp
next
  case (Cons x ys)
  with assms have "\<forall>y\<in>set ys. y \<le> x" by auto
  then have "Max (set (x # ys)) = x" by (intro Max_eqI) auto
  with Cons show ?thesis by simp
qed

lemma selectbox_initial_Max:
  "selectbox_initial (available_years df) =
     (if available_years df = [] then None else Some (Max (set (available_years df))))"
proof (cases "available_years df")
  case Nil
  then show ?thesis by (simp add: selectbox_initial_def)
next
  case (Cons y ys)
  then have "hd (available_years df) = Max (set (available_years df))"
    using descending_hd_Max [OF descending_available_years [of df]] by simp
  with Cons show ?thesis by (simp add: selectbox_initial_def)
qed

text \<open>
  C4. The options of the year selector are exactly the years of the rows of the prepared
  table (missing years left out) other than 2042, each once, in strictly descending
  order; the initial selection is the first option, the largest such year (and there is
  none when there is no option). Lines 53 and 54 read the prepared table and change no
  object of the store: the rows dated 2042 stay in the table, and the year filter would
  return them if 2042 were the selection.
\<close>

theorem selectable_years:
  "year_filter df (Some 2042) = filter (\<lambda>r. Year r = Some 2042) df \<and>
   set (available_years df) = {y. Some y \<in> Year ` set df \<and> y \<noteq> 2042} \<and>
   2042 \<notin> set (available_years df) \<and>
   sorted_wrt (\<lambda>a b. b < a) (available_years df) \<and>
   selectbox_initial (available_years df) =
     (if available_years df = [] then None else Some (Max (set (available_years df)))) \<and>
   (\<forall>s f pick. objs s (v_df s) = Some f \<and> frame_rows f = df \<longrightarrow>
      (\<exists>s'. line53_54 pick s = Inr s' \<and> objs s' = objs s \<and> v_df s' = v_df s \<and>
            v_available_years s' = Some (available_years df) \<and>
            v_selected_year s' = pick (available_years df)))"
proof -
  have "\<exists>s'. line53_54 pick s = Inr s' \<and> objs s' = objs s \<and> v_df s' = v_df s \<and>
            v_available_years s' = Some (available_years df) \<and>
            v_selected_year s' = pick (available_years df)"
    if "objs s (v_df s) = Some f" "frame_rows f = df" for s f pick
    using that by (simp add: line53_54_def deref_def Let_def)
  moreover have "year_filter df (Some 2042) = filter (\<lambda>r. Year r = Some 2042) df"
    unfolding year_filter_def by (rule filter_cong) (auto split: option.splits)
  ultimately show ?thesis
    using set_available_years [of df] descending_available_years [of df]
      selectbox_initial_Max [of df]
    by (intro conjI allI impI) auto
qed

lemma years_example: "map Year [prepared_2042, prepared_ok, prepared_bad_date] = [Some 2042, Some 2023, None]"
  by (simp add: prepared_2042_def prepared_ok_def prepared_bad_date_def)

lemma dropna_example: "dropna [Some 2042, Some 2023, None] = [2042, 2023 :: int]"
  by (simp add: dropna_def List.map_filter_simps)

lemma unique_example: "unique [2042, 2023 :: int] = [2042, 2023]"
  by simp

lemma available_years_example:
  "available_years [prepared_2042, prepared_ok, prepared_bad_date] = [2023]"
  unfolding available_years_def years_example dropna_example unique_example by simp


text \<open>
  A table with rows of 2042, of 2023 and without a year: the only option is 2023, it is
  the initial selection, and the table still holds the row of 2042.
\<close>

theorem selectable_years_witness:
  "objs example_state (v_df example_state) =
     Some \<lparr>frame_rows = [prepared_2042, prepared_ok, prepared_bad_date], Description_lower = None\<rparr> \<and>
   Year prepared_2042 = Some 2042 \<and>
   available_years [prepared_2042, prepared_ok, prepared_bad_date] = [2023] \<and>
   selectbox_initial (available_years [prepared_2042, prepared_ok, prepared_bad_date]) = Some 2023 \<and>
   (\<exists>s'. line53_54 selectbox_initial example_state = Inr s' \<and>
         objs s' = objs example_state \<and> v_selected_year s' = Some 2023)"
proof -
  let ?df = "[prepared_2042, prepared_ok, prepared_bad_date]"
  let ?f = "\<lparr>frame_rows = ?df, Description_lower = None\<rparr>"
  have o: "objs example_state (v_df example_state) = Some ?f"
    by (simp add: example_state_def)
  have y: "Year prepared_2042 = Some 2042" by (simp add: prepared_2042_def)
  note T = selectable_years [of ?df]
  note T4 = T [THEN conjunct2, THEN conjunct2, THEN conjunct2, THEN conjunct2]
  from T4 [THEN conjunct1] have i: "selectbox_initial (available_years ?df) = Some 2023"
    by (simp add: available_years_example)
  have "objs example_state (v_df example_state) = Some ?f \<and> frame_rows ?f = ?df"
    using o by simp
  with T4 [THEN conjunct2, rule_format, of example_state ?f selectbox_initial]
  obtain s' where "line53_54 selectbox_initial example_state = Inr s'"
    "objs s' = objs example_state"
    "v_selected_year s' = selectbox_initial (available_years ?df)"
    by blast
  then have "\<exists>s'. line53_54 selectbox_initial example_state = Inr s' \<and>
         objs s' = objs example_state \<and> v_selected_year s' = Some 2023"
    using i by auto
  then show ?thesis using o y i available_years_example by simp
qed

subsection \<open>The keyword counts\<close>

lemma startswith_iff: "startswith s p \<longleftrightarrow> (\<exists>v. s = p @ v)"
  by (induction s p rule: startswith.induct) auto

lemma str_contains_iff: "str_contains s p \<longleftrightarrow> (\<exists>u v. s = u @ p @ v)"
proof (induction s)
  case Nil
  then show ?case by auto
next
  case (Cons c cs)
  show ?case
  proof
    assume "str_contains (c # cs) p"
    then consider "startswith (c # cs) p" | "str_contains cs p" by auto
    then show "\<exists>u v. c # cs = u @ p @ v"
    proof cases
      case 1
      then obtain v where "c # cs = p @ v" by (auto simp: startswith_iff)
      then have "c # cs = [] @ p @ v" by simp
      then show ?thesis by blast
    next
      case 2
      then obtain u v where "cs = u @ p @ v" using Cons by blast
      then have "c # cs = (c # u) @ p @ v" by simp
      then show ?thesis by blast
    qed
  next
    assume "\<exists>u v. c # cs = u @ p @ v"
    then obtain u v where uv: "c # cs = u @ p @ v" by blast
    show "str_contains (c # cs) p"
    proof (cases u)
      case Nil
      with uv have "startswith (c # cs) p" by (auto simp: startswith_iff)
      then show ?thesis by simp
    next
      case (Cons a u')
      with uv have "cs = u' @ p @ v" by simp
      then have "str_contains cs p" using Cons.IH by blast
      then show ?thesis by simp
    qed
  qed
qed

lemma str_lower_append:
  "str_lower U (u @ w @ v) =
     concat (map (\<lambda>i. if (u @ w @ v) ! i < 128 then [ascii_lower ((u @ w @ v) ! i)] else U (u @ w @ v) i)
                 [0..<length u]) @
     concat (map (\<lambda>i. if (u @ w @ v) ! i < 128 then [ascii_lower ((u @ w @ v) ! i)] else U (u @ w @ v) i)
                 [length u..<length u + length w]) @
     concat (map (\<lambda>i. if (u @ w @ v) ! i < 128 then [ascii_lower ((u @ w @ v) ! i)] else U (u @ w @ v) i)
                 [length u + length w..<length u + length w + length v])"
proof -
  have "[0..<length (u @ w @ v)] =
          [0..<length u] @ [length u..<length u + length w] @
          [length u + length w..<length u + length w + length v]"
    using upt_add_eq_append [of 0 "length u" "length w"]
      upt_add_eq_append [of 0 "length u + length w" "length v"]
    by (simp add: add.assoc)
  then show ?thesis unfolding str_lower_def by (simp only: map_append concat_append)
qed

lemma str_lower_middle:
  assumes "list_all (\<lambda>c. c < 128) w"
  shows "concat (map (\<lambda>i. if (u @ w @ v) ! i < 128 then [ascii_lower ((u @ w @ v) ! i)] else U (u @ w @ v) i)
                 [length u..<length u + length w]) = map ascii_lower w"
proof -
  have "map (\<lambda>i. if (u @ w @ v) ! i < 128 then [ascii_lower ((u @ w @ v) ! i)] else U (u @ w @ v) i)
            [length u..<length u + length w] = map (\<lambda>c. [ascii_lower c]) w"
  proof (rule nth_equalityI)
    show "length (map (\<lambda>i. if (u @ w @ v) ! i < 128 then [ascii_lower ((u @ w @ v) ! i)] else U (u @ w @ v) i)
            [length u..<length u + length w]) = length (map (\<lambda>c. [ascii_lower c]) w)"
      by simp
  next
    fix i
    assume "i < length (map (\<lambda>i. if (u @ w @ v) ! i < 128 then [ascii_lower ((u @ w @ v) ! i)] else U (u @ w @ v) i)
            [length u..<length u + length w])"
    then have i: "i < length w" by simp
    then have n: "(u @ w @ v) ! (length u + i) = w ! i" by (simp add: nth_append)
    have "w ! i < 128" using assms i by (simp add: list_all_length)
    with i n show "map (\<lambda>i. if (u @ w @ v) ! i < 128 then [ascii_lower ((u @ w @ v) ! i)] else U (u @ w @ v) i)
            [length u..<length u + length w] ! i = map (\<lambda>c. [ascii_lower c]) w ! i"
      by simp
  qed
  then show ?thesis by (simp add: concat_map_singleton)
qed

lemma str_lower_contains:
  assumes "list_all (\<lambda>c. c < 128) w"
  shows "str_contains (str_lower U (u @ w @ v)) (map ascii_lower w)"
  unfolding str_contains_iff str_lower_append str_lower_middle [OF assms] by blast


lemma keyword_count_description_lower:
  "keyword_count (description_lower U rows) kw =
     length (filter (\<lambda>r. \<exists>u v. str_lower U (astype_str (DESCRIPTION r)) = u @ kw @ v) rows)"
  by (simp add: keyword_count_def description_lower_def filter_map comp_def str_contains_iff)

lemma kpi_keywords_snd:
  "map snd kpi_keywords = map ascii [''bathroom'', ''demolition'', ''flooring'', ''fence'']"
  by (simp add: kpi_keywords_def)

lemma kpi_keywords_literal:
  "list_all (\<lambda>kw. list_all (\<lambda>c. \<not> regex_special c) kw) (map snd kpi_keywords)"
  by (simp add: kpi_keywords_def regex_special_def ascii_def)

lemma lower_BATHROOM:
  "list_all (\<lambda>c. c < 128) (ascii ''BATHROOM'')"
  "map ascii_lower (ascii ''BATHROOM'') = ascii ''bathroom''"
  by (simp_all add: ascii_def ascii_lower_def)

text \<open>
  C6. For every (label, keyword) pair of the fixed mapping, in its order, the count is
  the number of rows whose description, as text and in lowercase, has the keyword
  somewhere inside it, with any text before and after (no word boundaries). The four
  keywords have no special character of a regular expression. The matching ignores
  the case of ASCII letters: a text that contains an ASCII word \<open>w\<close> contains, once
  lowered, the lowercase of \<open>w\<close>; in particular a row whose description contains
  \<open>BATHROOM\<close> counts for the keyword \<open>bathroom\<close>.
\<close>

theorem keyword_counts_are_substring_counts:
  "kpi_counts (description_lower U rows) =
     map (\<lambda>(label, kw). (label,
            length (filter (\<lambda>r. \<exists>u v. str_lower U (astype_str (DESCRIPTION r)) = u @ kw @ v) rows)))
         kpi_keywords \<and>
   map snd kpi_keywords = map ascii [''bathroom'', ''demolition'', ''flooring'', ''fence''] \<and>
   list_all (\<lambda>kw. list_all (\<lambda>c. \<not> regex_special c) kw) (map snd kpi_keywords) \<and>
   (\<forall>u w v. list_all (\<lambda>c. c < 128) w \<longrightarrow>
      str_contains (str_lower U (u @ w @ v)) (map ascii_lower w)) \<and>
   (\<forall>r u v. DESCRIPTION r = Str (u @ ascii ''BATHROOM'' @ v) \<longrightarrow>
      keyword_count (description_lower U [r]) (ascii ''bathroom'') = 1)"
proof -
  have a: "kpi_counts (description_lower U rows) =
     map (\<lambda>(label, kw). (label,
            length (filter (\<lambda>r. \<exists>u v. str_lower U (astype_str (DESCRIPTION r)) = u @ kw @ v) rows)))
         kpi_keywords"
    by (simp add: kpi_counts_def keyword_count_description_lower)
  have b: "str_contains (str_lower U (u @ w @ v)) (map ascii_lower w)"
    if "list_all (\<lambda>c. c < 128) w" for u w v
    using that by (rule str_lower_contains)
  have c: "keyword_count (description_lower U [r]) (ascii ''bathroom'') = 1"
    if "DESCRIPTION r = Str (u @ ascii ''BATHROOM'' @ v)" for r :: prepared and u v
  proof -
    have "str_contains (str_lower U (u @ ascii ''BATHROOM'' @ v)) (ascii ''bathroom'')"
      using b [OF lower_BATHROOM(1), of u v] by (simp only: lower_BATHROOM(2))
    then show ?thesis
      using that by (simp add: keyword_count_def description_lower_def astype_str_def)
  qed
  show ?thesis using a kpi_keywords_snd kpi_keywords_literal b c by blast
qed

text \<open>
  The example row with the description \<open>BATHROOM remodel\<close> counts for \<open>bathroom\<close>, and
  \<open>New Fences\<close> contains \<open>fence\<close> once lowered.
\<close>

theorem keyword_counts_are_substring_counts_witness:
  "DESCRIPTION prepared_ok = Str ([] @ ascii ''BATHROOM'' @ ascii '' remodel'') \<and>
   keyword_count (description_lower (\<lambda>s i. [s ! i]) [prepared_ok]) (ascii ''bathroom'') = 1 \<and>
   list_all (\<lambda>c. c < 128) (ascii ''Fence'') \<and>
   str_contains (str_lower (\<lambda>s i. [s ! i]) (ascii ''New '' @ ascii ''Fence'' @ ascii ''s''))
     (map ascii_lower (ascii ''Fence''))"
proof -
  have d: "DESCRIPTION prepared_ok = Str ([] @ ascii ''BATHROOM'' @ ascii '' remodel'')"
    by (simp add: prepared_ok_def ascii_def)
  have f: "list_all (\<lambda>c. c < 128) (ascii ''Fence'')" by (simp add: ascii_def)
  note T = keyword_counts_are_substring_counts [of "\<lambda>s i. [s ! i]" "[]"]
  note T3 = T [THEN conjunct2, THEN conjunct2, THEN conjunct2]
  from T3 [THEN conjunct2, rule_format, OF d]
  have a: "keyword_count (description_lower (\<lambda>s i. [s ! i]) [prepared_ok]) (ascii ''bathroom'') = 1" .
  from T3 [THEN conjunct1, rule_format, OF f]
  have b: "str_contains (str_lower (\<lambda>s i. [s ! i]) (ascii ''New '' @ ascii ''Fence'' @ ascii ''s''))
     (map ascii_lower (ascii ''Fence''))" .
  show ?thesis using d a f b by simp
qed

lemma str_lower_nan: "str_lower U (ascii ''nan'') = ascii ''nan''"
  by (simp add: str_lower_def ascii_def ascii_lower_def upt_rec [of 0])

lemma nan_has_no_keyword: "list_all (\<lambda>kw. \<not> str_contains (ascii ''nan'') kw) (map snd kpi_keywords)"
  by (simp add: kpi_keywords_def ascii_def)

lemma keyword_count_skips_missing:
  assumes "\<not> str_contains (ascii ''nan'') kw"
  shows "keyword_count (description_lower U rows) kw =
         keyword_count (description_lower U (filter (\<lambda>r. DESCRIPTION r \<noteq> NaN) rows)) kw"
proof (induction rows)
  case Nil
  then show ?case by simp
next
  case (Cons r rows)
  show ?case
  proof (cases "DESCRIPTION r = NaN")
    case True
    then have "str_lower U (astype_str (DESCRIPTION r)) = ascii ''nan''"
      by (simp add: astype_str_def str_lower_nan)
    with assms True Cons show ?thesis
      by (simp add: keyword_count_def description_lower_def)
  next
    case False
    with Cons show ?thesis by (simp add: keyword_count_def description_lower_def)
  qed
qed

text \<open>
  C9. A missing DESCRIPTION becomes the text \<open>nan\<close>, which is its own lowercase, and
  none of the four keywords occurs in \<open>nan\<close>. So the keyword counts are those of the
  rows with a description: a row with a missing description adds nothing to any count.
\<close>

theorem missing_description_never_counts:
  "(\<forall>r :: prepared. DESCRIPTION r = NaN \<longrightarrow>
       astype_str (DESCRIPTION r) = ascii ''nan'' \<and>
       str_lower U (astype_str (DESCRIPTION r)) = ascii ''nan'') \<and>
   list_all (\<lambda>kw. \<not> str_contains (ascii ''nan'') kw) (map snd kpi_keywords) \<and>
   kpi_counts (description_lower U rows) =
     kpi_counts (description_lower U (filter (\<lambda>r. DESCRIPTION r \<noteq> NaN) rows)) \<and>
   (\<forall>r. DESCRIPTION r = NaN \<longrightarrow>
       kpi_counts (description_lower U (r # rows)) = kpi_counts (description_lower U rows))"
proof -
  have a: "astype_str (DESCRIPTION r) = ascii ''nan'' \<and>
           str_lower U (astype_str (DESCRIPTION r)) = ascii ''nan''"
    if "DESCRIPTION r = NaN" for r :: prepared
    using that by (simp add: astype_str_def str_lower_nan)
  have k: "keyword_count (description_lower U rs) kw =
           keyword_count (description_lower U (filter (\<lambda>r. DESCRIPTION r \<noteq> NaN) rs)) kw"
    if "kw \<in> snd ` set kpi_keywords" for kw rs
    using that nan_has_no_keyword by (intro keyword_count_skips_missing) (auto simp: list_all_iff)
  have b: "kpi_counts (description_lower U rs) =
     kpi_counts (description_lower U (filter (\<lambda>r. DESCRIPTION r \<noteq> NaN) rs))" for rs
    unfolding kpi_counts_def
  proof (rule map_cong [OF refl])
    fix x
    assume "x \<in> set kpi_keywords"
    then have "snd x \<in> snd ` set kpi_keywords" by (rule imageI)
    from k [OF this, of rs]
    show "(case x of (label, keyword) \<Rightarrow> (label, keyword_count (description_lower U rs) keyword)) =
          (case x of (label, keyword) \<Rightarrow>
             (label, keyword_count (description_lower U (filter (\<lambda>r. DESCRIPTION r \<noteq> NaN) rs)) keyword))"
      by (cases x) simp
  qed
  have c: "kpi_counts (description_lower U (r # rows)) = kpi_counts (description_lower U rows)"
    if "DESCRIPTION r = NaN" for r
    using b [of "r # rows"] b [of rows] that by simp
  show ?thesis using a nan_has_no_keyword b c by blast
qed

text \<open>
  The example row without a description: the counts with and without it are equal.
\<close>

theorem missing_description_never_counts_witness:
  "DESCRIPTION prepared_bad_date = NaN \<and>
   str_lower (\<lambda>s i. [s ! i]) (astype_str (DESCRIPTION prepared_bad_date)) = ascii ''nan'' \<and>
   kpi_counts (description_lower (\<lambda>s i. [s ! i]) [prepared_bad_date, prepared_ok]) =
     kpi_counts (description_lower (\<lambda>s i. [s ! i]) [prepared_ok])"
proof -
  have d: "DESCRIPTION prepared_bad_date = NaN" by (simp add: prepared_bad_date_def)
  note T = missing_description_never_counts [of "\<lambda>s i. [s ! i]" "[prepared_ok]"]
  from T [THEN conjunct1, rule_format, OF d, THEN conjunct2]
  have a: "str_lower (\<lambda>s i. [s ! i]) (astype_str (DESCRIPTION prepared_bad_date)) = ascii ''nan''" .
  from T [THEN conjunct2, THEN conjunct2, THEN conjunct2, rule_format, OF d]
  have b: "kpi_counts (description_lower (\<lambda>s i. [s ! i]) [prepared_bad_date, prepared_ok]) =
     kpi_counts (description_lower (\<lambda>s i. [s ! i]) [prepared_ok])" .
  show ?thesis using d a b by simp
qed

subsection \<open>The prepared table in the store\<close>

text \<open>
  C7. Whatever the clock, the tables, the selection, the lowercase mapping and the
  outcome of the weather call are: when \<open>load_and_prepare_data\<close> raises, the script
  stops at line 49 with that exception and reaches no state; when it returns a table,
  then in every state the script reaches after line 49 the object \<open>df\<close> refers to is
  the prepared table as \<open>load_and_prepare_data\<close> returned it, with no column added: the
  selector, the year filter, the three aggregations, the column of lowercase
  descriptions and the keyword counts leave it as it is. The only exception that stops
  the script after line 49 is one raised by the weather call; when that call returns,
  all eight statements run, and the column that line 174 writes is in the object of
  \<open>df_filtered\<close>, which is another object holding the year-filtered rows.
\<close>

theorem prepared_table_is_never_written:
  "(\<forall>e. load_and_prepare_data clk records status types = Inl e \<longrightarrow>
      script clk records status types U pick weather = ([], Some e)) \<and>
   (\<forall>df. load_and_prepare_data clk records status types = Inr df \<longrightarrow>
     (\<forall>s\<in>set (fst (script clk records status types U pick weather)).
        objs s (v_df s) = Some \<lparr>frame_rows = df, Description_lower = None\<rparr>) \<and>
     snd (script clk records status types U pick weather) = weather \<and>
     length (fst (script clk records status types U pick weather)) = (if weather = None then 9 else 3) \<and>
     (weather = None \<longrightarrow>
        (\<exists>a f c. v_df_filtered (last (fst (script clk records status types U pick weather))) = Some a \<and>
           a \<noteq> v_df (last (fst (script clk records status types U pick weather))) \<and>
           objs (last (fst (script clk records status types U pick weather))) a = Some f \<and>
           frame_rows f = year_filter df
             (v_selected_year (last (fst (script clk records status types U pick weather)))) \<and>
           Description_lower f = Some c)))"
proof (intro conjI allI impI)
  fix e
  assume "load_and_prepare_data clk records status types = Inl e"
  then show "script clk records status types U pick weather = ([], Some e)"
    by (simp add: script_def line49_def)
next
  fix df
  assume df: "load_and_prepare_data clk records status types = Inr df"
  let ?F = "\<lparr>frame_rows = df, Description_lower = None\<rparr>"
  let ?S = "script clk records status types U pick weather"
  define inv where "inv s \<longleftrightarrow> v_df s = 0 \<and> objs s 0 = Some ?F \<and> 0 < fresh s" for s :: app
  define filt where "filt s \<longleftrightarrow> (\<exists>a f. v_df_filtered s = Some a \<and> a \<noteq> 0 \<and> objs s a = Some f \<and>
      frame_rows f = year_filter df (v_selected_year s))" for s :: app
  define col where "col s \<longleftrightarrow> (\<exists>a f c. v_df_filtered s = Some a \<and> a \<noteq> 0 \<and> objs s a = Some f \<and>
      frame_rows f = year_filter df (v_selected_year s) \<and> Description_lower f = Some c)" for s :: app
  obtain s0 where s0: "line49 clk records status types = Inr s0" "inv s0"
    by (simp add: line49_def df inv_def)
  obtain s1 where s1: "line53_54 pick s0 = Inr s1" "inv s1"
    using s0(2) by (simp add: line53_54_def deref_def inv_def Let_def)
  obtain s2 where s2: "line55 s1 = Inr s2" "inv s2" "filt s2"
    using s1(2) by (auto simp: line55_def deref_def inv_def filt_def new_frame_def Let_def)
  have i2: "\<forall>s\<in>set [s0, s1, s2]. objs s (v_df s) = Some ?F"
    using s0(2) s1(2) s2(2) by (simp add: inv_def)
  have all: "(\<forall>s\<in>set (fst ?S). objs s (v_df s) = Some ?F) \<and> snd ?S = weather \<and>
     length (fst ?S) = (if weather = None then 9 else 3) \<and>
     (weather = None \<longrightarrow>
        (\<exists>a f c. v_df_filtered (last (fst ?S)) = Some a \<and> a \<noteq> v_df (last (fst ?S)) \<and>
           objs (last (fst ?S)) a = Some f \<and>
           frame_rows f = year_filter df (v_selected_year (last (fst ?S))) \<and>
           Description_lower f = Some c))"
  proof (cases weather)
    case (Some e)
    have r: "?S = ([s0, s1, s2], Some e)"
      by (simp add: script_def downstream_def s0 s1 s2 line91_def Some)
    show ?thesis
      using i2 Some unfolding r by simp
  next
    case None
    have s3: "line91 weather s2 = Inr s2" by (simp add: line91_def None)
    obtain s4 where s4: "lines105_109 s2 = Inr s4" "inv s4" "filt s4"
      using s2(2,3) by (auto simp: lines105_109_def deref_def inv_def filt_def)
    obtain s5 where s5: "lines131_135 s4 = Inr s5" "inv s5" "filt s5"
      using s4(2,3) by (auto simp: lines131_135_def deref_def inv_def filt_def)
    obtain s6 where s6: "lines147_151 s5 = Inr s6" "inv s6" "filt s6"
      using s5(2,3) by (auto simp: lines147_151_def deref_def inv_def filt_def)
    obtain s7 where s7: "line174 U s6 = Inr s7" "inv s7" "col s7"
      using s6(2,3) by (auto simp: line174_def inv_def filt_def col_def)
    obtain s8 where s8: "lines185_187 s7 = Inr s8" "inv s8" "col s8"
      using s7(2,3) by (auto simp: lines185_187_def deref_def inv_def col_def)
    have r: "?S = ([s0, s1, s2, s2, s4, s5, s6, s7, s8], None)"
      by (simp add: script_def downstream_def s0 s1 s2 s3 s4 s5 s6 s7 s8)
    have i: "\<forall>s\<in>set [s0, s1, s2, s2, s4, s5, s6, s7, s8]. objs s (v_df s) = Some ?F"
      using i2 s4(2) s5(2) s6(2) s7(2) s8(2) by (simp add: inv_def)
    have c: "\<exists>a f c. v_df_filtered s8 = Some a \<and> a \<noteq> v_df s8 \<and> objs s8 a = Some f \<and>
          frame_rows f = year_filter df (v_selected_year s8) \<and> Description_lower f = Some c"
      using s8(2,3) by (auto simp: inv_def col_def)
    show ?thesis
      using i c None unfolding r by simp
  qed
  from all show "\<forall>s\<in>set (fst ?S). objs s (v_df s) = Some ?F" by blast
  from all show "snd ?S = weather" by blast
  from all show "length (fst ?S) = (if weather = None then 9 else 3)" by blast
  assume "weather = None"
  with all show "\<exists>a f c. v_df_filtered (last (fst ?S)) = Some a \<and> a \<noteq> v_df (last (fst ?S)) \<and>
           objs (last (fst ?S)) a = Some f \<and>
           frame_rows f = year_filter df (v_selected_year (last (fst ?S))) \<and>
           Description_lower f = Some c"
    by blast
qed

text \<open>
  The script on the example tables, with the initial selection and a weather call that
  returns: the prepared table is computed, and there are nine states, each with the two
  rows of the prepared table under \<open>df\<close>.
\<close>

theorem prepared_table_is_never_written_witness:
  "load_and_prepare_data example_clock example_records status_table type_table =
     Inr [prepared_ok, prepared_bad_date] \<and>
   length (fst (script example_clock example_records status_table type_table (\<lambda>s i. [s ! i])
                  selectbox_initial None)) = 9 \<and>
   snd (script example_clock example_records status_table type_table (\<lambda>s i. [s ! i])
          selectbox_initial None) = None \<and>
   list_all (\<lambda>s. objs s (v_df s) =
        Some \<lparr>frame_rows = [prepared_ok, prepared_bad_date], Description_lower = None\<rparr>)
     (fst (script example_clock example_records status_table type_table (\<lambda>s i. [s ! i])
             selectbox_initial None))"
proof -
  note L = load_example [of example_clock]
  note T = prepared_table_is_never_written
    [of example_clock example_records status_table type_table "\<lambda>s i. [s ! i]" selectbox_initial None,
     THEN conjunct2, rule_format, OF L]
  from T show ?thesis using L by (simp add: list_all_iff)
qed

end
